theory Spec2Isabelle
  imports Main
begin

section \<open>The overlay stack of \<open>vaadin-overlay.js\<close>\<close>

text \<open>
  The development embeds the stacking, modality, dismissal and focus-restoration
  logic of the class \<open>Overlay\<close> (\<open>packages/overlay/src/vaadin-overlay.js\<close>).
  Overlay instances are identified by a number; the mutable fields of an instance
  form a record, and the document-wide state (children of \<open>document.body\<close>, the
  inline \<open>pointer-events\<close> of the body, the focused element, the timers) is a second
  record that every method takes and returns.
\<close>

subsection \<open>Data model\<close>

type_synonym oid = nat

text \<open>
  DOM nodes as far as \<open>_deepContains\<close> looks at them: every node carries the chain
  it climbs with \<open>n.parentNode || n.host\<close>. A shadow root has no \<open>parentNode\<close>
  but a \<open>host\<close>; a detached node has neither.
\<close>

datatype node =
    DocumentNode
  | OverlayNode oid node
  | ElementNode nat node
  | ShadowRootNode nat node
  | DetachedNode nat

definition htmlNode :: node where
  "htmlNode = ElementNode 0 DocumentNode"

definition bodyNode :: node where
  "bodyNode = ElementNode 1 htmlNode"

text \<open>Where an element (or a placeholder comment) currently hangs.\<close>

datatype place = NoParent | Origin | Body

text \<open>
  The instance fields. \<open>zIndex\<close> is \<open>__zIndex\<close>, \<open>styleZIndex\<close> the inline
  \<open>style.zIndex\<close> (\<open>None\<close> is the empty string), \<open>defaultZIndex\<close> the z-index the
  style sheets give the host (\<open>z-index: 200\<close> in the component's own styles; it
  is taken to be an integer, as \<open>parseFloat\<close> then returns, and never \<open>auto\<close>).
  \<open>placeholder\<close> is \<open>_placeholder\<close>: \<open>None\<close> while
  undefined, otherwise the parent of the comment node. \<open>overlayPointerEvents\<close> is the
  inline \<open>pointer-events\<close> of the \<open>[part="overlay"]\<close> element (\<open>None\<close>: not
  set). \<open>openingAttr\<close> and \<open>closingAttr\<close> are the attributes \<open>opening\<close> and
  \<open>closing\<close> of the host. \<open>restoreFocusNode\<close> is the property of that name,
  \<open>savedFocusNode\<close> the private \<open>__restoreFocusNode\<close>. \<open>openingHandler\<close> and
  \<open>closingHandler\<close> say whether \<open>__openingHandler\<close>, respectively
  \<open>__closingHandler\<close>, is set. \<open>openingAnimated\<close> and \<open>closingAnimated\<close> say
  what \<open>_shouldAnimate\<close> reads from the computed style while the attribute
  \<open>opening\<close>, respectively \<open>closing\<close>, is set. \<open>keydownListening\<close> says
  whether the keydown listener is on the document, \<open>globalListening\<close> whether the
  mousedown, mouseup and click listeners are.
\<close>

record surface =
  opened :: bool
  modeless :: bool
  openingAttr :: bool
  closingAttr :: bool
  parentNode :: place
  placeholder :: "place option"
  zIndex :: int
  styleZIndex :: "int option"
  defaultZIndex :: int
  previousDocumentPointerEvents :: "string option"
  overlayPointerEvents :: "string option"
  mouseDownInside :: bool
  mouseUpInside :: bool
  restoreFocusOnClose :: bool
  restoreFocusNode :: "node option"
  savedFocusNode :: "node option"
  openingHandler :: bool
  closingHandler :: bool
  openingAnimated :: bool
  closingAnimated :: bool
  keydownListening :: bool
  globalListening :: bool

datatype child = OverlayEl oid | PlaceholderEl oid

datatype notification = OverlayClose | OutsideClick | EscapePress | OverlayClosing

text \<open>
  The document. \<open>bodyChildren\<close> lists, in DOM order, the overlay hosts and the live
  placeholder comments among the child nodes of \<open>document.body\<close>. \<open>focusPath\<close> is
  \<open>document.activeElement\<close> followed by the \<open>shadowRoot.activeElement\<close> of each
  element in turn. \<open>focusTimers\<close> are the pending \<open>setTimeout\<close> callbacks that
  focus a node, \<open>dispatched\<close> the custom events dispatched so far.
\<close>

record doc =
  surfaces :: "oid \<Rightarrow> surface"
  bodyChildren :: "child list"
  bodyPointerEvents :: string
  focusPath :: "node list"
  focusTimers :: "node list"
  dispatched :: "(oid \<times> notification) list"

definition updSurface :: "doc \<Rightarrow> oid \<Rightarrow> (surface \<Rightarrow> surface) \<Rightarrow> doc" where
  "updSurface d i f = d\<lparr>surfaces := (surfaces d)(i := f (surfaces d i))\<rparr>"

subsection \<open>The derived stack\<close>

text \<open>
  \<open>document.body.children\<close> holds elements only, so a placeholder comment never
  passes the filter \<open>el instanceof Overlay\<close>.
\<close>

fun overlayChildren :: "child list \<Rightarrow> oid list" where
  "overlayChildren [] = []"
| "overlayChildren (OverlayEl i # cs) = i # overlayChildren cs"
| "overlayChildren (PlaceholderEl i # cs) = overlayChildren cs"

text \<open>
  \<open>Array.prototype.sort\<close> is stable, and the comparator
  \<open>a.__zIndex - b.__zIndex || 0\<close> orders by \<open>__zIndex\<close> ascending; \<open>sort_key\<close>
  is the stable insertion sort.
\<close>

definition attachedInstances :: "doc \<Rightarrow> oid list" where
  "attachedInstances d =
     sort_key (\<lambda>i. zIndex (surfaces d i))
       (filter (\<lambda>i. \<not> closingAttr (surfaces d i)) (overlayChildren (bodyChildren d)))"

text \<open>\<open>Array.prototype.pop\<close>: the last element, or \<open>undefined\<close> on an empty array.\<close>

fun pop :: "'a list \<Rightarrow> 'a option" where
  "pop [] = None"
| "pop (x # xs) = Some (last (x # xs))"

text \<open>The getter \<open>_last\<close>: \<open>this === Overlay.__attachedInstances.pop()\<close>.\<close>

definition isLast :: "doc \<Rightarrow> oid \<Rightarrow> bool" where
  "isLast d i = (pop (attachedInstances d) = Some i)"

subsection \<open>Stacking order assignment\<close>

text \<open>
  \<open>getComputedStyle(this).zIndex\<close>: the inline style wins over the style sheet.
\<close>

definition computedZIndex :: "surface \<Rightarrow> int" where
  "computedZIndex s = (case styleZIndex s of Some z \<Rightarrow> z | None \<Rightarrow> defaultZIndex s)"

text \<open>
  \<open>bringToFront\<close>. The local \<open>zIndex\<close> is the empty string (\<open>None\<close>) or a number;
  \<open>zIndex || parseFloat(...)\<close> takes the computed value when \<open>zIndex\<close> is the
  empty string or \<open>0\<close>.
\<close>

definition bringToFront :: "doc \<Rightarrow> oid \<Rightarrow> doc" where
  "bringToFront d i =
     (let frontmost = pop (filter (\<lambda>el. el \<noteq> i) (attachedInstances d));
          z = (case frontmost of None \<Rightarrow> None
               | Some f \<Rightarrow> Some (zIndex (surfaces d f) + 1));
          s = (surfaces d i)\<lparr>styleZIndex := z\<rparr>;
          z' = (case z of None \<Rightarrow> computedZIndex s
                | Some n \<Rightarrow> if n \<noteq> 0 then n else computedZIndex s)
      in d\<lparr>surfaces := (surfaces d)(i := s\<lparr>zIndex := z'\<rparr>)\<rparr>)"

text \<open>The attached, non-closing surfaces other than \<open>i\<close>, as a set.\<close>

definition otherAttached :: "doc \<Rightarrow> oid \<Rightarrow> oid set" where
  "otherAttached d i =
     {j. OverlayEl j \<in> set (bodyChildren d) \<and> \<not> closingAttr (surfaces d j) \<and> j \<noteq> i}"

subsection \<open>Modal state\<close>

text \<open>
  \<open>_enterModalState\<close>: record and disable the pointer events of the body unless
  they are disabled already, then disable them on the \<open>[part="overlay"]\<close> of every
  other attached instance (\<open>forEach\<close> over \<open>__attachedInstances\<close>).
\<close>

definition enterModalState :: "doc \<Rightarrow> oid \<Rightarrow> doc" where
  "enterModalState d i =
     (let d1 = (if bodyPointerEvents d \<noteq> ''none''
                then (updSurface d i
                        (\<lambda>s. s\<lparr>previousDocumentPointerEvents := Some (bodyPointerEvents d)\<rparr>))
                     \<lparr>bodyPointerEvents := ''none''\<rparr>
                else d)
      in foldl
           (\<lambda>acc el. if el \<noteq> i
                      then updSurface acc el (\<lambda>s. s\<lparr>overlayPointerEvents := Some ''none''\<rparr>)
                      else acc)
           d1 (attachedInstances d1))"

text \<open>
  The loop of \<open>_exitModalState\<close>. Its argument is the array in the order in which
  \<open>instances.pop()\<close> hands the elements out, topmost first.
\<close>

fun exitWalk :: "oid \<Rightarrow> oid list \<Rightarrow> doc \<Rightarrow> doc" where
  "exitWalk this [] d = d"
| "exitWalk this (el # rest) d =
     (if el = this then exitWalk this rest d
      else
        let d' = updSurface d el (\<lambda>s. s\<lparr>overlayPointerEvents := None\<rparr>)
        in if \<not> modeless (surfaces d' el) then d' else exitWalk this rest d')"

definition exitModalState :: "doc \<Rightarrow> oid \<Rightarrow> doc" where
  "exitModalState d i =
     (let d1 = (case previousDocumentPointerEvents (surfaces d i) of
                  Some v \<Rightarrow>
                    (updSurface d i (\<lambda>s. s\<lparr>previousDocumentPointerEvents := None\<rparr>))
                    \<lparr>bodyPointerEvents := v\<rparr>
                | None \<Rightarrow> d)
      in exitWalk i (rev (attachedInstances d1)) d1)"

definition addGlobalListeners :: "doc \<Rightarrow> oid \<Rightarrow> doc" where
  "addGlobalListeners d i = updSurface d i (\<lambda>s. s\<lparr>globalListening := True\<rparr>)"

definition removeGlobalListeners :: "doc \<Rightarrow> oid \<Rightarrow> doc" where
  "removeGlobalListeners d i = updSurface d i (\<lambda>s. s\<lparr>globalListening := False\<rparr>)"

text \<open>\<open>_modelessChanged\<close>, the observer of the property \<open>modeless\<close>.\<close>

definition modelessChanged :: "doc \<Rightarrow> oid \<Rightarrow> bool \<Rightarrow> doc" where
  "modelessChanged d i m =
     (if \<not> m then
        (if opened (surfaces d i) then enterModalState (addGlobalListeners d i) i else d)
      else exitModalState (removeGlobalListeners d i) i)"

definition setModeless :: "doc \<Rightarrow> oid \<Rightarrow> bool \<Rightarrow> doc" where
  "setModeless d i m =
     (if modeless (surfaces d i) = m then d
      else modelessChanged (updSurface d i (\<lambda>s. s\<lparr>modeless := m\<rparr>)) i m)"

subsection \<open>Attaching and detaching\<close>

text \<open>
  The source has no \<open>throw\<close>; what can go wrong is a property read on \<open>null\<close> or
  \<open>undefined\<close> in the DOM calls of \<open>_attachOverlay\<close> and \<open>_detachOverlay\<close>.
\<close>

datatype error = TypeError

definition bindE :: "error + 'a \<Rightarrow> ('a \<Rightarrow> error + 'b) \<Rightarrow> error + 'b" where
  "bindE m f = (case m of Inl e \<Rightarrow> Inl e | Inr x \<Rightarrow> f x)"

text \<open>\<open>parent.insertBefore(new, ref)\<close> and \<open>parent.appendChild(new)\<close> on a child list.\<close>

definition insertBefore :: "child \<Rightarrow> child \<Rightarrow> child list \<Rightarrow> child list" where
  "insertBefore new ref cs =
     (let cs' = removeAll new cs
      in takeWhile (\<lambda>c. c \<noteq> ref) cs' @ new # dropWhile (\<lambda>c. c \<noteq> ref) cs')"

definition appendChild :: "child \<Rightarrow> child list \<Rightarrow> child list" where
  "appendChild new cs = removeAll new cs @ [new]"

text \<open>
  \<open>_attachOverlay\<close>: a fresh comment becomes \<open>_placeholder\<close> (the comment it
  replaces is no longer referenced and leaves the list), is put before the host in the
  host's parent, the host moves to the end of the body, and \<open>bringToFront\<close> runs.
  The original parent of a host is taken to be another element than the body.
\<close>

definition attachOverlay :: "doc \<Rightarrow> oid \<Rightarrow> error + doc" where
  "attachOverlay d i =
     (case parentNode (surfaces d i) of
        NoParent \<Rightarrow> Inl TypeError
      | p \<Rightarrow>
        let cs0 = removeAll (PlaceholderEl i) (bodyChildren d);
            cs1 = (if p = Body then insertBefore (PlaceholderEl i) (OverlayEl i) cs0 else cs0);
            cs2 = appendChild (OverlayEl i) cs1;
            d1 = (updSurface d i (\<lambda>s. s\<lparr>placeholder := Some p, parentNode := Body\<rparr>))
                 \<lparr>bodyChildren := cs2\<rparr>
        in Inr (bringToFront d1 i))"

text \<open>
  \<open>_detachOverlay\<close>: the host goes back before the placeholder, which is then
  removed from its parent (and stays referenced by \<open>_placeholder\<close>).
\<close>

definition detachOverlay :: "doc \<Rightarrow> oid \<Rightarrow> error + doc" where
  "detachOverlay d i =
     (case placeholder (surfaces d i) of
        None \<Rightarrow> Inl TypeError
      | Some NoParent \<Rightarrow> Inl TypeError
      | Some Origin \<Rightarrow>
          Inr ((updSurface d i (\<lambda>s. s\<lparr>parentNode := Origin, placeholder := Some NoParent\<rparr>))
               \<lparr>bodyChildren := removeAll (OverlayEl i) (bodyChildren d)\<rparr>)
      | Some Body \<Rightarrow>
          Inr ((updSurface d i (\<lambda>s. s\<lparr>parentNode := Body, placeholder := Some NoParent\<rparr>))
               \<lparr>bodyChildren :=
                  removeAll (PlaceholderEl i)
                    (insertBefore (OverlayEl i) (PlaceholderEl i) (bodyChildren d))\<rparr>))"

subsection \<open>Focus\<close>

text \<open>
  \<open>_getActiveElement\<close>: \<open>document.activeElement || document.body\<close>, then down
  through the shadow roots that have an active element.
\<close>

fun descendActive :: "node \<Rightarrow> node list \<Rightarrow> node" where
  "descendActive active [] = active"
| "descendActive active (inner # rest) = descendActive inner rest"

definition getActiveElement :: "doc \<Rightarrow> node" where
  "getActiveElement d =
     (case focusPath d of [] \<Rightarrow> bodyNode | a # inner \<Rightarrow> descendActive a inner)"

text \<open>\<open>this.contains(node)\<close>: \<open>node\<close> is the host or below it along \<open>parentNode\<close>.\<close>

fun containsNode :: "oid \<Rightarrow> node \<Rightarrow> bool" where
  "containsNode i DocumentNode = False"
| "containsNode i (OverlayNode j p) = (j = i \<or> containsNode i p)"
| "containsNode i (ElementNode k p) = containsNode i p"
| "containsNode i (ShadowRootNode k h) = False"
| "containsNode i (DetachedNode k) = False"

text \<open>
  The loop of \<open>_deepContains\<close>: climb with \<open>n.parentNode || n.host\<close> until \<open>n\<close> is
  the host, the document or nothing; the result is the final \<open>n\<close>.
\<close>

fun climb :: "oid \<Rightarrow> node \<Rightarrow> node option" where
  "climb i DocumentNode = Some DocumentNode"
| "climb i (OverlayNode j p) = (if j = i then Some (OverlayNode j p) else climb i p)"
| "climb i (ElementNode k p) = climb i p"
| "climb i (ShadowRootNode k h) = climb i h"
| "climb i (DetachedNode k) = None"

definition deepContains :: "oid \<Rightarrow> node \<Rightarrow> bool" where
  "deepContains i n =
     (if containsNode i n then True
      else (case climb i n of Some (OverlayNode j p) \<Rightarrow> j = i | _ \<Rightarrow> False))"

text \<open>
  A node with everything above it, climbing through \<open>parentNode\<close> and, at a shadow
  root, through \<open>host\<close>: what a node is contained in across shadow boundaries.
\<close>

fun shadowIncludingAncestors :: "node \<Rightarrow> node list" where
  "shadowIncludingAncestors DocumentNode = [DocumentNode]"
| "shadowIncludingAncestors (OverlayNode j p) = OverlayNode j p # shadowIncludingAncestors p"
| "shadowIncludingAncestors (ElementNode k p) = ElementNode k p # shadowIncludingAncestors p"
| "shadowIncludingAncestors (ShadowRootNode k h) =
     ShadowRootNode k h # shadowIncludingAncestors h"
| "shadowIncludingAncestors (DetachedNode k) = [DetachedNode k]"

subsection \<open>Opening and closing\<close>

datatype phase = Opening | Closing

definition shouldAnimate :: "surface \<Rightarrow> phase \<Rightarrow> bool" where
  "shouldAnimate s ph = (case ph of Opening \<Rightarrow> openingAnimated s | Closing \<Rightarrow> closingAnimated s)"

definition finishOpening :: "doc \<Rightarrow> oid \<Rightarrow> doc" where
  "finishOpening d i = updSurface d i (\<lambda>s. s\<lparr>openingAttr := False\<rparr>)"

definition finishClosing :: "doc \<Rightarrow> oid \<Rightarrow> error + doc" where
  "finishClosing d i =
     bindE (detachOverlay d i)
       (\<lambda>d1. Inr (updSurface d1 i (\<lambda>s. s\<lparr>overlayPointerEvents := None, closingAttr := False\<rparr>)))"

text \<open>
  \<open>_enqueueAnimation\<close> stores the listener under \<open>__openingHandler\<close> or
  \<open>__closingHandler\<close>; the listener, called without an event or with an
  \<open>animationend\<close> of the host itself, runs the callback and deletes itself.
\<close>

definition enqueueAnimation :: "phase \<Rightarrow> doc \<Rightarrow> oid \<Rightarrow> doc" where
  "enqueueAnimation ph d i =
     (case ph of
        Opening \<Rightarrow> updSurface d i (\<lambda>s. s\<lparr>openingHandler := True\<rparr>)
      | Closing \<Rightarrow> updSurface d i (\<lambda>s. s\<lparr>closingHandler := True\<rparr>))"

definition runHandler :: "phase \<Rightarrow> doc \<Rightarrow> oid \<Rightarrow> error + doc" where
  "runHandler ph d i =
     (case ph of
        Opening \<Rightarrow> Inr (updSurface (finishOpening d i) i (\<lambda>s. s\<lparr>openingHandler := False\<rparr>))
      | Closing \<Rightarrow>
          bindE (finishClosing d i)
            (\<lambda>d1. Inr (updSurface d1 i (\<lambda>s. s\<lparr>closingHandler := False\<rparr>))))"

definition hasHandler :: "phase \<Rightarrow> surface \<Rightarrow> bool" where
  "hasHandler ph s = (case ph of Opening \<Rightarrow> openingHandler s | Closing \<Rightarrow> closingHandler s)"

definition flushAnimation :: "phase \<Rightarrow> doc \<Rightarrow> oid \<Rightarrow> error + doc" where
  "flushAnimation ph d i = (if hasHandler ph (surfaces d i) then runHandler ph d i else Inr d)"

definition animatedOpening :: "doc \<Rightarrow> oid \<Rightarrow> error + doc" where
  "animatedOpening d i =
     bindE (if parentNode (surfaces d i) = Body \<and> closingAttr (surfaces d i)
            then flushAnimation Closing d i else Inr d)
       (\<lambda>d1. bindE (attachOverlay d1 i)
         (\<lambda>d2.
            let d3 = (if \<not> modeless (surfaces d2 i) then enterModalState d2 i else d2);
                d4 = updSurface d3 i (\<lambda>s. s\<lparr>openingAttr := True\<rparr>)
            in Inr (if shouldAnimate (surfaces d4 i) Opening
                    then enqueueAnimation Opening d4 i
                    else finishOpening d4 i)))"

text \<open>
  The focus part of \<open>_animatedClosing\<close>: \<open>this.restoreFocusNode || this.__restoreFocusNode\<close>
  is the node to focus; the timer is set when the active element is the body or inside
  the overlay, and \<open>__restoreFocusNode\<close> is cleared either way.
\<close>

definition restoreFocus :: "doc \<Rightarrow> oid \<Rightarrow> doc" where
  "restoreFocus d i =
     (let target = (case restoreFocusNode (surfaces d i) of
                      Some n \<Rightarrow> Some n
                    | None \<Rightarrow> savedFocusNode (surfaces d i))
      in if restoreFocusOnClose (surfaces d i) then
           (case target of
              None \<Rightarrow> d
            | Some t \<Rightarrow>
                let activeElement = getActiveElement d;
                    d1 = (if activeElement = bodyNode \<or> deepContains i activeElement
                          then d\<lparr>focusTimers := focusTimers d @ [t]\<rparr> else d)
                in updSurface d1 i (\<lambda>s. s\<lparr>savedFocusNode := None\<rparr>))
         else d)"

definition animatedClosing :: "doc \<Rightarrow> oid \<Rightarrow> error + doc" where
  "animatedClosing d i =
     bindE (if openingAttr (surfaces d i) then flushAnimation Opening d i else Inr d)
       (\<lambda>d1.
          if placeholder (surfaces d1 i) \<noteq> None then
            let d2 = exitModalState d1 i;
                d3 = restoreFocus d2 i;
                d4 = updSurface d3 i (\<lambda>s. s\<lparr>closingAttr := True\<rparr>);
                d5 = d4\<lparr>dispatched := dispatched d4 @ [(i, OverlayClosing)]\<rparr>
            in if shouldAnimate (surfaces d5 i) Closing
               then Inr (enqueueAnimation Closing d5 i)
               else finishClosing d5 i
          else Inr d1)"

text \<open>
  \<open>_openedChanged(opened, wasOpened)\<close>, the observer of the property \<open>opened\<close>. The
  callback handed to \<open>afterNextRender\<close> (focus trap, the event
  \<open>vaadin-overlay-open\<close>) and the release of the focus trap belong to the
  \<open>FocusTrapController\<close> and to a later task; they touch no field of this model.
\<close>

definition openedChanged :: "doc \<Rightarrow> oid \<Rightarrow> bool \<Rightarrow> bool \<Rightarrow> error + doc" where
  "openedChanged d i opn wasOpened =
     (if opn then
        bindE (animatedOpening
                 (updSurface d i (\<lambda>s. s\<lparr>savedFocusNode := Some (getActiveElement d)\<rparr>)) i)
          (\<lambda>d1.
             let d2 = updSurface d1 i (\<lambda>s. s\<lparr>keydownListening := True\<rparr>)
             in Inr (if \<not> modeless (surfaces d2 i) then addGlobalListeners d2 i else d2))
      else if wasOpened then
        bindE (animatedClosing d i)
          (\<lambda>d1.
             let d2 = updSurface d1 i (\<lambda>s. s\<lparr>keydownListening := False\<rparr>)
             in Inr (if \<not> modeless (surfaces d2 i) then removeGlobalListeners d2 i else d2))
      else Inr d)"

text \<open>Assigning the property \<open>opened\<close>: the observer runs when the value changes.\<close>

definition setOpened :: "doc \<Rightarrow> oid \<Rightarrow> bool \<Rightarrow> error + doc" where
  "setOpened d i v =
     (let old = opened (surfaces d i)
      in if old = v then Inr d
         else openedChanged (updSurface d i (\<lambda>s. s\<lparr>opened := v\<rparr>)) i v old)"

text \<open>
  Dispatching a cancelable event: \<open>veto n\<close> says whether a listener of the host
  component calls \<open>preventDefault\<close> on the notification \<open>n\<close>. The listeners
  are taken to do nothing else to the overlays while the event is dispatched.
\<close>

definition dispatchEvent :: "doc \<Rightarrow> oid \<Rightarrow> notification \<Rightarrow> doc" where
  "dispatchEvent d i n = d\<lparr>dispatched := dispatched d @ [(i, n)]\<rparr>"

definition close :: "doc \<Rightarrow> oid \<Rightarrow> (notification \<Rightarrow> bool) \<Rightarrow> error + doc" where
  "close d i veto =
     (let d1 = dispatchEvent d i OverlayClose
      in if \<not> veto OverlayClose then setOpened d1 i False else Inr d1)"

subsection \<open>Dismissal routing\<close>

datatype target = OverlayPart oid | OtherTarget nat

record event =
  key :: string
  composedPath :: "target list"

definition mouseDownListener :: "doc \<Rightarrow> oid \<Rightarrow> event \<Rightarrow> doc" where
  "mouseDownListener d i ev =
     updSurface d i (\<lambda>s. s\<lparr>mouseDownInside := (OverlayPart i \<in> set (composedPath ev))\<rparr>)"

definition mouseUpListener :: "doc \<Rightarrow> oid \<Rightarrow> event \<Rightarrow> doc" where
  "mouseUpListener d i ev =
     updSurface d i (\<lambda>s. s\<lparr>mouseUpInside := (OverlayPart i \<in> set (composedPath ev))\<rparr>)"

definition outsideClickListener ::
    "doc \<Rightarrow> oid \<Rightarrow> event \<Rightarrow> (notification \<Rightarrow> bool) \<Rightarrow> error + doc" where
  "outsideClickListener d i ev veto =
     (if OverlayPart i \<in> set (composedPath ev) \<or> mouseDownInside (surfaces d i)
           \<or> mouseUpInside (surfaces d i)
      then Inr (updSurface d i (\<lambda>s. s\<lparr>mouseDownInside := False, mouseUpInside := False\<rparr>))
      else if \<not> isLast d i then Inr d
      else
        let d1 = dispatchEvent d i OutsideClick
        in if opened (surfaces d1 i) \<and> \<not> veto OutsideClick then close d1 i veto else Inr d1)"

definition keydownListener ::
    "doc \<Rightarrow> oid \<Rightarrow> event \<Rightarrow> (notification \<Rightarrow> bool) \<Rightarrow> error + doc" where
  "keydownListener d i ev veto =
     (if \<not> isLast d i then Inr d
      else if modeless (surfaces d i) \<and> OverlayPart i \<notin> set (composedPath ev) then Inr d
      else if key ev = ''Escape'' then
        let d1 = dispatchEvent d i EscapePress
        in if opened (surfaces d1 i) \<and> \<not> veto EscapePress then close d1 i veto else Inr d1
      else Inr d)"

subsection \<open>Sequences of operations\<close>

text \<open>
  An \<open>animationend\<close> event of the host reaches the listeners that
  \<open>_enqueueAnimation\<close> registered and that are still there.
\<close>

definition animationEnd :: "doc \<Rightarrow> oid \<Rightarrow> error + doc" where
  "animationEnd d i =
     bindE (flushAnimation Opening d i) (\<lambda>d1. flushAnimation Closing d1 i)"

text \<open>
  What can happen to the overlays of a document: the properties \<open>opened\<close> and
  \<open>modeless\<close> are assigned, \<open>close\<close> and \<open>bringToFront\<close> are called, an
  animation ends, and a mouse or key event of the document reaches the listener of a
  surface, which is there only while the surface has it registered.
\<close>

datatype operation =
    Open oid
  | Close oid bool
  | AnimationEnd oid
  | BringToFront oid
  | SetModeless oid bool
  | MouseDown oid event
  | MouseUp oid event
  | Click oid event "notification \<Rightarrow> bool"
  | Keydown oid event "notification \<Rightarrow> bool"

fun step :: "doc \<Rightarrow> operation \<Rightarrow> error + doc" where
  "step d (Open i) = setOpened d i True"
| "step d (Close i vetoed) = close d i (\<lambda>n. vetoed)"
| "step d (AnimationEnd i) = animationEnd d i"
| "step d (BringToFront i) = Inr (bringToFront d i)"
| "step d (SetModeless i m) = Inr (setModeless d i m)"
| "step d (MouseDown i ev) =
     Inr (if globalListening (surfaces d i) then mouseDownListener d i ev else d)"
| "step d (MouseUp i ev) =
     Inr (if globalListening (surfaces d i) then mouseUpListener d i ev else d)"
| "step d (Click i ev veto) =
     (if globalListening (surfaces d i) then outsideClickListener d i ev veto else Inr d)"
| "step d (Keydown i ev veto) =
     (if keydownListening (surfaces d i) then keydownListener d i ev veto else Inr d)"

fun run :: "doc \<Rightarrow> operation list \<Rightarrow> error + doc" where
  "run d [] = Inr d"
| "run d (x # xs) = bindE (step d x) (\<lambda>d'. run d' xs)"

text \<open>
  A surface that has never been opened, with its configuration left open, and the
  document before any overlay is opened.
\<close>

definition closedSurface :: "surface \<Rightarrow> bool" where
  "closedSurface s \<longleftrightarrow>
     \<not> opened s \<and> \<not> openingAttr s \<and> \<not> closingAttr s \<and> parentNode s = Origin
     \<and> placeholder s = None \<and> styleZIndex s = None
     \<and> previousDocumentPointerEvents s = None \<and> overlayPointerEvents s = None
     \<and> \<not> mouseDownInside s \<and> \<not> mouseUpInside s \<and> savedFocusNode s = None
     \<and> \<not> openingHandler s \<and> \<not> closingHandler s
     \<and> \<not> keydownListening s \<and> \<not> globalListening s"

definition initial :: "doc \<Rightarrow> bool" where
  "initial d \<longleftrightarrow>
     (\<forall>i. closedSurface (surfaces d i)) \<and> bodyChildren d = []
     \<and> focusTimers d = [] \<and> dispatched d = []"

text \<open>A modal surface with the component's default z-index, for the examples.\<close>

definition modalSurface :: surface where
  "modalSurface =
     \<lparr>opened = False, modeless = False, openingAttr = False, closingAttr = False,
      parentNode = Origin, placeholder = None, zIndex = 0, styleZIndex = None,
      defaultZIndex = 200, previousDocumentPointerEvents = None,
      overlayPointerEvents = None, mouseDownInside = False, mouseUpInside = False,
      restoreFocusOnClose = False, restoreFocusNode = None, savedFocusNode = None,
      openingHandler = False, closingHandler = False, openingAnimated = False,
      closingAnimated = False, keydownListening = False, globalListening = False\<rparr>"

definition emptyDoc :: doc where
  "emptyDoc =
     \<lparr>surfaces = (\<lambda>i. modalSurface), bodyChildren = [], bodyPointerEvents = [],
      focusPath = [], focusTimers = [], dispatched = []\<rparr>"

subsection \<open>The surfaces that exiting modal state re-enables\<close>

text \<open>
  In the words of the specification: walking the remaining attached surfaces from
  topmost to bottommost, every modeless surface met and the first modal one. This is
  the list the loop of \<open>_exitModalState\<close> is compared with.
\<close>

definition uptoModal :: "(oid \<Rightarrow> bool) \<Rightarrow> oid list \<Rightarrow> oid list" where
  "uptoModal m xs = takeWhile m xs @ take 1 (dropWhile m xs)"

definition reenabled :: "doc \<Rightarrow> oid \<Rightarrow> oid list" where
  "reenabled d i =
     uptoModal (\<lambda>el. modeless (surfaces d el))
       (rev (filter (\<lambda>el. el \<noteq> i) (attachedInstances d)))"

subsection \<open>Example documents\<close>

text \<open>The document a run ends in (the empty document if the run raises).\<close>

definition resultDoc :: "error + doc \<Rightarrow> doc" where
  "resultDoc r = (case r of Inr d \<Rightarrow> d | Inl e \<Rightarrow> emptyDoc)"

text \<open>Two modal surfaces opened one after the other.\<close>

definition twoModals :: doc where
  "twoModals = resultDoc (run emptyDoc [Open 1, Open 2])"

text \<open>One modal surface open.\<close>

definition oneModal :: doc where
  "oneModal = resultDoc (run emptyDoc [Open 1])"

text \<open>Two modal surfaces and, on top, a modeless one.\<close>

definition threeStack :: doc where
  "threeStack =
     resultDoc (run (updSurface emptyDoc 3 (\<lambda>s. s\<lparr>modeless := True\<rparr>)) [Open 1, Open 2, Open 3])"


text \<open>Listeners that cancel nothing, and listeners that cancel \<open>vaadin-overlay-close\<close>.\<close>

definition noVeto :: "notification \<Rightarrow> bool" where
  "noVeto n = False"

definition vetoClose :: "notification \<Rightarrow> bool" where
  "vetoClose n = (n = OverlayClose)"

definition escapeKey :: event where
  "escapeKey = \<lparr>key = ''Escape'', composedPath = []\<rparr>"

text \<open>Two modal surfaces opened, then the lower one closed first.\<close>

definition outOfOrder :: doc where
  "outOfOrder = resultDoc (run emptyDoc [Open 1, Open 2, Close 1 False])"

text \<open>
  Two buttons of the page, and an input inside the shadow tree below the content of
  overlay 1.
\<close>

definition buttonX :: node where
  "buttonX = ElementNode 7 bodyNode"

definition buttonY :: node where
  "buttonY = ElementNode 8 bodyNode"

definition innerInput :: node where
  "innerInput = ElementNode 9 (ShadowRootNode 2 (ElementNode 3 (OverlayNode 1 bodyNode)))"

text \<open>
  Overlay 1 restores focus and has \<open>restoreFocusNode\<close> set to \<open>buttonY\<close>; it is opened
  while \<open>buttonX\<close> has the focus, and the focus is on the body afterwards.
\<close>

definition focusDoc :: doc where
  "focusDoc =
     (updSurface emptyDoc 1
        (\<lambda>s. s\<lparr>restoreFocusOnClose := True, restoreFocusNode := Some buttonY\<rparr>))
     \<lparr>focusPath := [buttonX]\<rparr>"

definition focusOpen :: doc where
  "focusOpen = (resultDoc (run focusDoc [Open 1]))\<lparr>focusPath := []\<rparr>"

text \<open>
  Overlay 1 restores focus, with no \<open>restoreFocusNode\<close>; it is opened while
  \<open>buttonX\<close> has the focus, and the focus is on \<open>innerInput\<close>, respectively on
  \<open>buttonY\<close>, afterwards.
\<close>

definition focusInside :: doc where
  "focusInside =
     (resultDoc (run ((updSurface emptyDoc 1 (\<lambda>s. s\<lparr>restoreFocusOnClose := True\<rparr>))
                       \<lparr>focusPath := [buttonX]\<rparr>) [Open 1]))
     \<lparr>focusPath := [ElementNode 3 (OverlayNode 1 bodyNode), innerInput]\<rparr>"

definition focusElsewhere :: doc where
  "focusElsewhere = focusInside\<lparr>focusPath := [buttonY]\<rparr>"

text \<open>Overlay 1 with a closing animation, opened and closed: its exit is in flight.\<close>

definition exitInFlight :: doc where
  "exitInFlight =
     resultDoc (run (updSurface emptyDoc 1 (\<lambda>s. s\<lparr>closingAnimated := True\<rparr>))
                  [Open 1, Close 1 False, Open 2])"

subsection \<open>Reachable documents\<close>

text \<open>
  Between two operations a surface is open (attached, placeholder at its original
  place), closing (closed, still attached, the closing handler pending) or closed
  (back at its original place).
\<close>

definition lifecycle :: "surface \<Rightarrow> bool" where
  "lifecycle s \<longleftrightarrow>
     (if opened s then
        parentNode s = Body \<and> placeholder s = Some Origin
        \<and> \<not> closingAttr s \<and> \<not> closingHandler s
      else if parentNode s = Body then
        placeholder s = Some Origin \<and> closingAttr s \<and> closingHandler s
      else parentNode s = Origin \<and> \<not> closingAttr s \<and> \<not> closingHandler s)"

text \<open>
  What every sequence of operations maintains: the life cycle of each surface, the hosts
  under the body being those whose parent is the body, and no two surfaces of the
  derived stack with the same stacking order.
\<close>

definition consistent :: "doc \<Rightarrow> bool" where
  "consistent d \<longleftrightarrow>
     (\<forall>i. lifecycle (surfaces d i))
     \<and> (\<forall>i. OverlayEl i \<in> set (bodyChildren d) \<longleftrightarrow> parentNode (surfaces d i) = Body)
     \<and> (\<forall>j k. j \<in> set (attachedInstances d) \<longrightarrow> k \<in> set (attachedInstances d)
            \<longrightarrow> zIndex (surfaces d j) = zIndex (surfaces d k) \<longrightarrow> j = k)"

section \<open>Properties\<close>

subsection \<open>The stack\<close>

lemma set_overlayChildren: "set (overlayChildren cs) = {j. OverlayEl j \<in> set cs}"
  by (induction cs rule: overlayChildren.induct) auto

lemma set_attachedInstances:
  "set (attachedInstances d) =
     {j. OverlayEl j \<in> set (bodyChildren d) \<and> \<not> closingAttr (surfaces d j)}"
  by (auto simp: attachedInstances_def set_overlayChildren)

lemma set_others:
  "set (filter (\<lambda>el. el \<noteq> i) (attachedInstances d)) = otherAttached d i"
  by (auto simp: set_attachedInstances otherAttached_def)

lemma pop_None: "pop xs = None \<longleftrightarrow> xs = []"
  by (cases xs) auto

lemma pop_Some: "pop xs = Some x \<longleftrightarrow> xs \<noteq> [] \<and> last xs = x"
  by (cases xs) auto

lemma sorted_last_Max:
  "sorted (map f xs) \<Longrightarrow> xs \<noteq> [] \<Longrightarrow> f (last xs) = Max (f ` set xs)"
proof (induction xs)
  case Nil
  then show ?case by simp
next
  case (Cons x xs)
  show ?case
  proof (cases "xs = []")
    case True
    then show ?thesis by simp
  next
    case False
    with Cons have ih: "f (last xs) = Max (f ` set xs)" by simp
    from Cons.prems have "\<forall>y\<in>set xs. f x \<le> f y" by simp
    with False have "f x \<le> f (last xs)" by simp
    moreover have "Max (f ` set (x # xs)) = max (f x) (Max (f ` set xs))"
      using False by simp
    ultimately show ?thesis using False ih by (simp add: max_def)
  qed
qed

lemma sorted_filter_map:
  "sorted (map f xs) \<Longrightarrow> sorted (map f (filter P xs))"
  by (induction xs) auto

lemma others_sorted:
  "sorted (map (\<lambda>j. zIndex (surfaces d j)) (filter (\<lambda>el. el \<noteq> i) (attachedInstances d)))"
  by (rule sorted_filter_map) (simp add: attachedInstances_def)

lemma frontmost_Max:
  assumes "otherAttached d i \<noteq> {}"
  shows "\<exists>f. pop (filter (\<lambda>el. el \<noteq> i) (attachedInstances d)) = Some f
           \<and> f \<in> otherAttached d i
           \<and> zIndex (surfaces d f) = Max ((\<lambda>j. zIndex (surfaces d j)) ` otherAttached d i)"
proof -
  let ?os = "filter (\<lambda>el. el \<noteq> i) (attachedInstances d)"
  from assms have ne: "?os \<noteq> []"
    using set_others [of i d] by (metis empty_set)
  then have "pop ?os = Some (last ?os)" by (simp add: pop_Some)
  moreover have "last ?os \<in> otherAttached d i"
    using ne set_others [of i d] last_in_set by blast
  moreover have "zIndex (surfaces d (last ?os))
      = Max ((\<lambda>j. zIndex (surfaces d j)) ` otherAttached d i)"
    using sorted_last_Max [OF others_sorted ne] set_others [of i d] by simp
  ultimately show ?thesis by blast
qed

lemma bringToFront_zIndex_some:
  assumes "pop (filter (\<lambda>el. el \<noteq> i) (attachedInstances d)) = Some f"
  shows "zIndex (surfaces (bringToFront d i) i) = zIndex (surfaces d f) + 1"
  using assms by (simp add: bringToFront_def Let_def computedZIndex_def)



lemma insort_key_cong_set:
  "f x = g x \<Longrightarrow> (\<forall>y\<in>set xs. f y = g y) \<Longrightarrow> insort_key f x xs = insort_key g x xs"
  by (induction xs) auto

lemma sort_key_cong_set:
  "(\<forall>y\<in>set xs. f y = g y) \<Longrightarrow> sort_key f xs = sort_key g xs"
  by (induction xs) (auto intro: insort_key_cong_set)

lemma others_sort_form:
  "filter (\<lambda>el. el \<noteq> i) (attachedInstances d) =
     sort_key (\<lambda>j. zIndex (surfaces d j))
       (filter (\<lambda>el. el \<noteq> i)
          (filter (\<lambda>j. \<not> closingAttr (surfaces d j)) (overlayChildren (bodyChildren d))))"
  by (simp add: attachedInstances_def filter_sort)

lemma bringToFront_frame:
  "bodyChildren (bringToFront d i) = bodyChildren d"
  "closingAttr (surfaces (bringToFront d i) j) = closingAttr (surfaces d j)"
  "j \<noteq> i \<Longrightarrow> surfaces (bringToFront d i) j = surfaces d j"
  "defaultZIndex (surfaces (bringToFront d i) j) = defaultZIndex (surfaces d j)"
  by (simp_all add: bringToFront_def Let_def)

lemma bringToFront_others:
  "filter (\<lambda>el. el \<noteq> i) (attachedInstances (bringToFront d i))
     = filter (\<lambda>el. el \<noteq> i) (attachedInstances d)"
proof -
  let ?xs = "filter (\<lambda>el. el \<noteq> i)
          (filter (\<lambda>j. \<not> closingAttr (surfaces d j)) (overlayChildren (bodyChildren d)))"
  have "\<forall>y\<in>set ?xs. zIndex (surfaces (bringToFront d i) y) = zIndex (surfaces d y)"
    by (simp add: bringToFront_frame)
  then have "sort_key (\<lambda>j. zIndex (surfaces (bringToFront d i) j)) ?xs
           = sort_key (\<lambda>j. zIndex (surfaces d j)) ?xs"
    by (rule sort_key_cong_set)
  then show ?thesis
    unfolding others_sort_form by (simp add: bringToFront_frame)
qed

lemma bringToFront_none:
  assumes "pop (filter (\<lambda>el. el \<noteq> i) (attachedInstances d)) = None"
  shows "bringToFront d i =
     d\<lparr>surfaces := (surfaces d)
        (i := (surfaces d i)\<lparr>styleZIndex := None, zIndex := defaultZIndex (surfaces d i)\<rparr>)\<rparr>"
  using assms by (simp add: bringToFront_def Let_def computedZIndex_def)

lemma bringToFront_some:
  assumes "pop (filter (\<lambda>el. el \<noteq> i) (attachedInstances d)) = Some f"
  shows "bringToFront d i =
     d\<lparr>surfaces := (surfaces d)
        (i := (surfaces d i)\<lparr>styleZIndex := Some (zIndex (surfaces d f) + 1),
                              zIndex := zIndex (surfaces d f) + 1\<rparr>)\<rparr>"
  using assms by (simp add: bringToFront_def Let_def computedZIndex_def)

lemma pop_others_neq:
  "pop (filter (\<lambda>el. el \<noteq> i) xs) = Some f \<Longrightarrow> f \<noteq> i"
proof -
  assume "pop (filter (\<lambda>el. el \<noteq> i) xs) = Some f"
  then have "f \<in> set (filter (\<lambda>el. el \<noteq> i) xs)"
    unfolding pop_Some using last_in_set by blast
  then show ?thesis by simp
qed

lemma bringToFront_twice: "bringToFront (bringToFront d i) i = bringToFront d i"
proof (cases "pop (filter (\<lambda>el. el \<noteq> i) (attachedInstances d))")
  case None
  then have n': "pop (filter (\<lambda>el. el \<noteq> i) (attachedInstances (bringToFront d i))) = None"
    by (simp add: bringToFront_others)
  show ?thesis
    unfolding bringToFront_none [OF n'] unfolding bringToFront_none [OF None] by simp
next
  case (Some f)
  then have s': "pop (filter (\<lambda>el. el \<noteq> i) (attachedInstances (bringToFront d i))) = Some f"
    by (simp add: bringToFront_others)
  have "f \<noteq> i" using Some by (rule pop_others_neq)
  then have "surfaces (bringToFront d i) f = surfaces d f"
    by (simp add: bringToFront_frame)
  then show ?thesis
    unfolding bringToFront_some [OF s'] unfolding bringToFront_some [OF Some]
    using \<open>f \<noteq> i\<close> by simp
qed

lemma twoModals_ok: "\<not> isl (run emptyDoc [Open 1, Open 2])"
  by code_simp



subsection \<open>Stacking order assignment\<close>



text \<open>
  C9. \<open>bringToFront\<close> is idempotent: a second call right after the first assigns the
  same stacking order again (and changes nothing else either).
\<close>

theorem bringToFront_idempotent:
  "zIndex (surfaces (bringToFront (bringToFront d i) i) i)
     = zIndex (surfaces (bringToFront d i) i)
   \<and> bringToFront (bringToFront d i) i = bringToFront d i"
  by (simp add: bringToFront_twice)

theorem bringToFront_idempotent_witness:
  "zIndex (surfaces (bringToFront (bringToFront twoModals 1) 1) 1) = 202"
proof -
  have "zIndex (surfaces (bringToFront twoModals 1) 1) = 202"
    by code_simp
  then show ?thesis
    using bringToFront_idempotent [of twoModals 1] by simp
qed

subsection \<open>Modal state\<close>

lemma uptoModal_simps:
  "uptoModal m [] = []"
  "uptoModal m (x # xs) = (if m x then x # uptoModal m xs else [x])"
  by (simp_all add: uptoModal_def)

lemma exitWalk_form:
  "(\<forall>k. modeless (surfaces d k) = m k) \<Longrightarrow>
   exitWalk this xs d =
     d\<lparr>surfaces := (\<lambda>j. if j \<in> set (uptoModal m (filter (\<lambda>el. el \<noteq> this) xs))
                         then (surfaces d j)\<lparr>overlayPointerEvents := None\<rparr>
                         else surfaces d j)\<rparr>"
proof (induction xs arbitrary: d)
  case Nil
  then show ?case by (simp add: uptoModal_simps)
next
  case (Cons el rest)
  show ?case
  proof (cases "el = this")
    case True
    then show ?thesis using Cons by simp
  next
    case False
    let ?d' = "updSurface d el (\<lambda>s. s\<lparr>overlayPointerEvents := None\<rparr>)"
    have m': "\<forall>k. modeless (surfaces ?d' k) = m k"
      using Cons.prems by (simp add: updSurface_def)
    show ?thesis
    proof (cases "m el")
      case True
      then have "exitWalk this (el # rest) d = exitWalk this rest ?d'"
        using False m' by (simp add: Let_def)
      also have "\<dots> = ?d'\<lparr>surfaces := (\<lambda>j. if j \<in> set (uptoModal m (filter (\<lambda>el. el \<noteq> this) rest))
                         then (surfaces ?d' j)\<lparr>overlayPointerEvents := None\<rparr>
                         else surfaces ?d' j)\<rparr>"
        using Cons.IH [OF m'] .
      also have "\<dots> = d\<lparr>surfaces := (\<lambda>j. if j \<in> set (uptoModal m (filter (\<lambda>el. el \<noteq> this) (el # rest)))
                         then (surfaces d j)\<lparr>overlayPointerEvents := None\<rparr>
                         else surfaces d j)\<rparr>"
        using False True by (auto simp: updSurface_def uptoModal_simps fun_eq_iff)
      finally show ?thesis .
    next
      case mf: False
      then have "exitWalk this (el # rest) d = ?d'"
        using False m' by (simp add: Let_def)
      also have "\<dots> = d\<lparr>surfaces := (\<lambda>j. if j \<in> set (uptoModal m (filter (\<lambda>el. el \<noteq> this) (el # rest)))
                         then (surfaces d j)\<lparr>overlayPointerEvents := None\<rparr>
                         else surfaces d j)\<rparr>"
        using False mf by (auto simp: updSurface_def uptoModal_simps fun_eq_iff)
      finally show ?thesis .
    qed
  qed
qed

lemma enterLoop_form:
  "foldl (\<lambda>acc el. if el \<noteq> i
                      then updSurface acc el (\<lambda>s. s\<lparr>overlayPointerEvents := Some ''none''\<rparr>)
                      else acc) d xs
   = d\<lparr>surfaces := (\<lambda>j. if j \<noteq> i \<and> j \<in> set xs
                         then (surfaces d j)\<lparr>overlayPointerEvents := Some ''none''\<rparr>
                         else surfaces d j)\<rparr>"
proof (induction xs arbitrary: d)
  case Nil
  then show ?case by simp
next
  case (Cons el rest)
  show ?case
    unfolding foldl_Cons Cons.IH
    by (auto simp: updSurface_def fun_eq_iff)
qed

lemma attachedInstances_cong:
  assumes "bodyChildren d' = bodyChildren d"
    and "\<And>j. closingAttr (surfaces d' j) = closingAttr (surfaces d j)"
    and "\<And>j. zIndex (surfaces d' j) = zIndex (surfaces d j)"
  shows "attachedInstances d' = attachedInstances d"
  using assms by (simp add: attachedInstances_def)

lemma notin_uptoModal: "i \<notin> set xs \<Longrightarrow> i \<notin> set (uptoModal m xs)"
  by (induction xs) (auto simp: uptoModal_simps)

lemma set_uptoModal: "set (uptoModal m xs) \<subseteq> set xs"
  by (induction xs) (auto simp: uptoModal_simps)

lemma self_notin_reenabled: "i \<notin> set (reenabled d i)"
  unfolding reenabled_def by (rule notin_uptoModal) simp

lemma enterModalState_form:
  "enterModalState d i =
     d\<lparr>surfaces := (\<lambda>j.
          if j = i then
            (if bodyPointerEvents d \<noteq> ''none''
             then (surfaces d i)\<lparr>previousDocumentPointerEvents := Some (bodyPointerEvents d)\<rparr>
             else surfaces d i)
          else if j \<in> set (attachedInstances d)
            then (surfaces d j)\<lparr>overlayPointerEvents := Some ''none''\<rparr>
            else surfaces d j),
       bodyPointerEvents := ''none''\<rparr>"
proof (cases "bodyPointerEvents d = ''none''")
  case False
  define d1 where "d1 = (updSurface d i
                (\<lambda>s. s\<lparr>previousDocumentPointerEvents := Some (bodyPointerEvents d)\<rparr>))
             \<lparr>bodyPointerEvents := ''none''\<rparr>"
  have a: "attachedInstances d1 = attachedInstances d"
    by (rule attachedInstances_cong) (simp_all add: updSurface_def d1_def)
  have "enterModalState d i =
     d1\<lparr>surfaces := (\<lambda>j. if j \<noteq> i \<and> j \<in> set (attachedInstances d)
                         then (surfaces d1 j)\<lparr>overlayPointerEvents := Some ''none''\<rparr>
                         else surfaces d1 j)\<rparr>"
    using False unfolding enterModalState_def Let_def d1_def [symmetric]
    by (simp only: if_True a enterLoop_form simp_thms)
  also have "\<dots> = d\<lparr>surfaces := (\<lambda>j.
          if j = i then
            (if bodyPointerEvents d \<noteq> ''none''
             then (surfaces d i)\<lparr>previousDocumentPointerEvents := Some (bodyPointerEvents d)\<rparr>
             else surfaces d i)
          else if j \<in> set (attachedInstances d)
            then (surfaces d j)\<lparr>overlayPointerEvents := Some ''none''\<rparr>
            else surfaces d j),
       bodyPointerEvents := ''none''\<rparr>"
    using False by (simp add: d1_def updSurface_def fun_eq_iff)
  finally show ?thesis .
next
  case True
  have "enterModalState d i =
     d\<lparr>surfaces := (\<lambda>j. if j \<noteq> i \<and> j \<in> set (attachedInstances d)
                         then (surfaces d j)\<lparr>overlayPointerEvents := Some ''none''\<rparr>
                         else surfaces d j)\<rparr>"
    using True unfolding enterModalState_def Let_def
    by (simp only: if_False enterLoop_form simp_thms)
  also have "\<dots> = d\<lparr>surfaces := (\<lambda>j.
          if j = i then
            (if bodyPointerEvents d \<noteq> ''none''
             then (surfaces d i)\<lparr>previousDocumentPointerEvents := Some (bodyPointerEvents d)\<rparr>
             else surfaces d i)
          else if j \<in> set (attachedInstances d)
            then (surfaces d j)\<lparr>overlayPointerEvents := Some ''none''\<rparr>
            else surfaces d j),
       bodyPointerEvents := ''none''\<rparr>"
    using True by (simp add: fun_eq_iff)
  finally show ?thesis .
qed

lemma exitModalState_form:
  "exitModalState d i =
     d\<lparr>surfaces := (\<lambda>j.
          if j = i then (surfaces d i)\<lparr>previousDocumentPointerEvents := None\<rparr>
          else if j \<in> set (reenabled d i)
            then (surfaces d j)\<lparr>overlayPointerEvents := None\<rparr>
            else surfaces d j),
       bodyPointerEvents :=
         (case previousDocumentPointerEvents (surfaces d i) of
            Some v \<Rightarrow> v | None \<Rightarrow> bodyPointerEvents d)\<rparr>"
proof -
  define d1 where "d1 = (case previousDocumentPointerEvents (surfaces d i) of
                  Some v \<Rightarrow>
                    (updSurface d i (\<lambda>s. s\<lparr>previousDocumentPointerEvents := None\<rparr>))
                    \<lparr>bodyPointerEvents := v\<rparr>
                | None \<Rightarrow> d)"
  have d1: "d1 = d\<lparr>surfaces := (surfaces d)
                     (i := (surfaces d i)\<lparr>previousDocumentPointerEvents := None\<rparr>),
                 bodyPointerEvents :=
                   (case previousDocumentPointerEvents (surfaces d i) of
                      Some v \<Rightarrow> v | None \<Rightarrow> bodyPointerEvents d)\<rparr>"
    by (cases "previousDocumentPointerEvents (surfaces d i)")
       (simp_all add: d1_def updSurface_def fun_eq_iff)
  have a: "attachedInstances d1 = attachedInstances d"
    by (rule attachedInstances_cong) (simp_all add: d1)
  have m: "\<forall>k. modeless (surfaces d1 k) = (\<lambda>el. modeless (surfaces d el)) k"
    by (simp add: d1)
  have n: "i \<notin> set (reenabled d i)" by (rule self_notin_reenabled)
  have r: "uptoModal (\<lambda>el. modeless (surfaces d el))
             (filter (\<lambda>el. el \<noteq> i) (rev (attachedInstances d))) = reenabled d i"
    by (simp add: reenabled_def rev_filter)
  have "exitModalState d i = exitWalk i (rev (attachedInstances d)) d1"
    unfolding exitModalState_def Let_def d1_def [symmetric] a ..
  also have "\<dots> = d1\<lparr>surfaces := (\<lambda>j. if j \<in> set (reenabled d i)
                         then (surfaces d1 j)\<lparr>overlayPointerEvents := None\<rparr>
                         else surfaces d1 j)\<rparr>"
    unfolding exitWalk_form [OF m] r ..
  also have "\<dots> = d\<lparr>surfaces := (\<lambda>j.
          if j = i then (surfaces d i)\<lparr>previousDocumentPointerEvents := None\<rparr>
          else if j \<in> set (reenabled d i)
            then (surfaces d j)\<lparr>overlayPointerEvents := None\<rparr>
            else surfaces d j),
       bodyPointerEvents :=
         (case previousDocumentPointerEvents (surfaces d i) of
            Some v \<Rightarrow> v | None \<Rightarrow> bodyPointerEvents d)\<rparr>"
    using n by (simp add: d1 fun_eq_iff)
  finally show ?thesis .
qed

lemma uptoModal_modals:
  "filter (\<lambda>x. \<not> m x) (uptoModal m xs) = take 1 (filter (\<lambda>x. \<not> m x) xs)"
  by (induction xs) (auto simp: uptoModal_simps)

lemma take1_rev: "take 1 (rev zs) = (case pop zs of None \<Rightarrow> [] | Some x \<Rightarrow> [x])"
proof (cases zs rule: rev_cases)
  case Nil
  then show ?thesis by simp
next
  case (snoc ys y)
  then have "pop zs = Some y" by (simp add: pop_Some)
  then show ?thesis using snoc by simp
qed

lemma uptoModal_mem:
  "j \<in> set (uptoModal m xs) \<longleftrightarrow> (\<exists>pre post. xs = pre @ j # post \<and> (\<forall>k\<in>set pre. m k))"
proof (induction xs)
  case Nil
  then show ?case by (simp add: uptoModal_simps)
next
  case (Cons x xs)
  show ?case
  proof (cases "m x")
    case True
    have "(\<exists>pre post. x # xs = pre @ j # post \<and> (\<forall>k\<in>set pre. m k))
        \<longleftrightarrow> j = x \<or> (\<exists>pre post. xs = pre @ j # post \<and> (\<forall>k\<in>set pre. m k))"
    proof
      assume "\<exists>pre post. x # xs = pre @ j # post \<and> (\<forall>k\<in>set pre. m k)"
      then obtain pre post where e: "x # xs = pre @ j # post" and a: "\<forall>k\<in>set pre. m k"
        by blast
      show "j = x \<or> (\<exists>pre post. xs = pre @ j # post \<and> (\<forall>k\<in>set pre. m k))"
      proof (cases pre)
        case Nil
        then show ?thesis using e by simp
      next
        case (Cons p ps)
        then have "xs = ps @ j # post" "\<forall>k\<in>set ps. m k" using e a by simp_all
        then show ?thesis by blast
      qed
    next
      assume "j = x \<or> (\<exists>pre post. xs = pre @ j # post \<and> (\<forall>k\<in>set pre. m k))"
      then show "\<exists>pre post. x # xs = pre @ j # post \<and> (\<forall>k\<in>set pre. m k)"
      proof
        assume "j = x"
        then have "x # xs = [] @ j # xs \<and> (\<forall>k\<in>set []. m k)" by simp
        then show ?thesis by blast
      next
        assume "\<exists>pre post. xs = pre @ j # post \<and> (\<forall>k\<in>set pre. m k)"
        then obtain pre post where "xs = pre @ j # post" "\<forall>k\<in>set pre. m k" by blast
        then have "x # xs = (x # pre) @ j # post \<and> (\<forall>k\<in>set (x # pre). m k)"
          using True by simp
        then show ?thesis by blast
      qed
    qed
    then show ?thesis using True Cons by (simp add: uptoModal_simps)
  next
    case False
    have "(\<exists>pre post. x # xs = pre @ j # post \<and> (\<forall>k\<in>set pre. m k)) \<longleftrightarrow> j = x"
    proof
      assume "\<exists>pre post. x # xs = pre @ j # post \<and> (\<forall>k\<in>set pre. m k)"
      then obtain pre post where e: "x # xs = pre @ j # post" and a: "\<forall>k\<in>set pre. m k"
        by blast
      show "j = x"
      proof (cases pre)
        case Nil
        then show ?thesis using e by simp
      next
        case (Cons p ps)
        then have "p = x" using e by simp
        then show ?thesis using a Cons False by simp
      qed
    next
      assume "j = x"
      then have "x # xs = [] @ j # xs \<and> (\<forall>k\<in>set []. m k)" by simp
      then show "\<exists>pre post. x # xs = pre @ j # post \<and> (\<forall>k\<in>set pre. m k)" by blast
    qed
    then show ?thesis using False by (simp add: uptoModal_simps)
  qed
qed

lemma reenabled_mem:
  "j \<in> set (reenabled d i) \<longleftrightarrow>
     (\<exists>below above. filter (\<lambda>el. el \<noteq> i) (attachedInstances d) = below @ j # above
        \<and> (\<forall>k\<in>set above. modeless (surfaces d k)))"
proof -
  let ?os = "filter (\<lambda>el. el \<noteq> i) (attachedInstances d)"
  let ?m = "\<lambda>el. modeless (surfaces d el)"
  have "j \<in> set (reenabled d i) \<longleftrightarrow>
          (\<exists>pre post. rev ?os = pre @ j # post \<and> (\<forall>k\<in>set pre. ?m k))"
    unfolding reenabled_def by (rule uptoModal_mem)
  also have "\<dots> \<longleftrightarrow> (\<exists>below above. ?os = below @ j # above \<and> (\<forall>k\<in>set above. ?m k))"
  proof
    assume "\<exists>pre post. rev ?os = pre @ j # post \<and> (\<forall>k\<in>set pre. ?m k)"
    then obtain pre post where e: "rev ?os = pre @ j # post" and a: "\<forall>k\<in>set pre. ?m k"
      by blast
    from e have "?os = rev (pre @ j # post)" by (metis rev_rev_ident)
    then have "?os = rev post @ j # rev pre" by simp
    moreover have "\<forall>k\<in>set (rev pre). ?m k" using a by simp
    ultimately show "\<exists>below above. ?os = below @ j # above \<and> (\<forall>k\<in>set above. ?m k)"
      by blast
  next
    assume "\<exists>below above. ?os = below @ j # above \<and> (\<forall>k\<in>set above. ?m k)"
    then obtain below above where e: "?os = below @ j # above" and a: "\<forall>k\<in>set above. ?m k"
      by blast
    from e have "rev ?os = rev above @ j # rev below" by simp
    moreover have "\<forall>k\<in>set (rev above). ?m k" using a by simp
    ultimately show "\<exists>pre post. rev ?os = pre @ j # post \<and> (\<forall>k\<in>set pre. ?m k)"
      by blast
  qed
  finally show ?thesis .
qed

lemma reenabled_modals:
  "filter (\<lambda>j. \<not> modeless (surfaces d j)) (reenabled d i) =
     (case pop (filter (\<lambda>j. \<not> modeless (surfaces d j))
                  (filter (\<lambda>el. el \<noteq> i) (attachedInstances d))) of
        None \<Rightarrow> [] | Some m \<Rightarrow> [m])"
  unfolding reenabled_def uptoModal_modals rev_filter [symmetric] take1_rev ..

lemma exitModalState_overlayPointerEvents:
  "overlayPointerEvents (surfaces (exitModalState d i) j) =
     (if j \<in> set (reenabled d i) then None else overlayPointerEvents (surfaces d j))"
  using self_notin_reenabled [of i d] by (simp add: exitModalState_form)

text \<open>
  C4. Exiting modal state walks the remaining attached surfaces from the topmost down.
  The surfaces whose pointer events it re-enables are those of \<open>reenabled\<close> and no
  other: a remaining surface is re-enabled exactly when everything above it among the
  remaining surfaces is modeless, so the modeless surfaces above the topmost remaining
  modal surface and that one modal surface, wherever the exiting surface stood.
\<close>

theorem exitModalState_walk:
  "(\<forall>j. overlayPointerEvents (surfaces (exitModalState d i) j) =
          (if j \<in> set (reenabled d i) then None else overlayPointerEvents (surfaces d j)))
   \<and> (\<forall>j. j \<in> set (reenabled d i) \<longleftrightarrow>
          (\<exists>below above.
              filter (\<lambda>el. el \<noteq> i) (attachedInstances d) = below @ j # above
              \<and> (\<forall>k\<in>set above. modeless (surfaces d k))))
   \<and> filter (\<lambda>j. \<not> modeless (surfaces d j)) (reenabled d i) =
       (case pop (filter (\<lambda>j. \<not> modeless (surfaces d j))
                    (filter (\<lambda>el. el \<noteq> i) (attachedInstances d))) of
          None \<Rightarrow> [] | Some m \<Rightarrow> [m])"
  using exitModalState_overlayPointerEvents reenabled_mem reenabled_modals by blast

theorem exitModalState_walk_witness:
  "attachedInstances threeStack = [1, 2, 3]
   \<and> reenabled threeStack 2 = [3, 1]
   \<and> overlayPointerEvents (surfaces threeStack 1) = Some ''none''
   \<and> overlayPointerEvents (surfaces (exitModalState threeStack 2) 1) = None
   \<and> filter (\<lambda>j. \<not> modeless (surfaces threeStack j)) (reenabled threeStack 2) = [1]"
proof -
  have a: "attachedInstances threeStack = [1, 2, 3]" by code_simp
  have r: "reenabled threeStack 2 = [3, 1]" by code_simp
  have p: "overlayPointerEvents (surfaces threeStack 1) = Some ''none''" by code_simp
  have m: "pop (filter (\<lambda>j. \<not> modeless (surfaces threeStack j))
                    (filter (\<lambda>el. el \<noteq> 2) (attachedInstances threeStack))) = Some 1"
    by code_simp
  show ?thesis
    using exitModalState_walk [of threeStack 2] a r p m by simp
qed

subsection \<open>Dismissal routing\<close>



subsection \<open>Who restores the body\<close>

lemma enterModalState_body:
  "bodyPointerEvents (enterModalState d i) = ''none''"
  by (simp add: enterModalState_form)

lemma enterModalState_previous:
  "previousDocumentPointerEvents (surfaces (enterModalState d j) i) =
     (if i = j \<and> bodyPointerEvents d \<noteq> ''none'' then Some (bodyPointerEvents d)
      else previousDocumentPointerEvents (surfaces d i))"
  by (simp add: enterModalState_form)

lemma exitModalState_body:
  "bodyPointerEvents (exitModalState d i) =
     (case previousDocumentPointerEvents (surfaces d i) of
        Some v \<Rightarrow> v | None \<Rightarrow> bodyPointerEvents d)"
  by (simp add: exitModalState_form)

lemma exitModalState_previous:
  "previousDocumentPointerEvents (surfaces (exitModalState d j) i) =
     (if i = j then None else previousDocumentPointerEvents (surfaces d i))"
  by (simp add: exitModalState_form)

text \<open>
  C10. Only the overlay that recorded the prior value of the body's pointer events
  writes it back. Entering modal state records the prior value when (and only when) the
  body is not yet disabled, and records it for the entering overlay alone; exiting modal
  state sets the body to the recorded value if the exiting overlay has one and leaves the
  body untouched otherwise, and clears the record of the exiting overlay alone. Hence an
  overlay that entered modal state with the body already disabled, and with nothing
  recorded, leaves the body untouched when it exits.
\<close>

theorem body_restored_by_recorder_only:
  "(bodyPointerEvents d = ''none'' \<longrightarrow>
      previousDocumentPointerEvents (surfaces (enterModalState d i) i)
        = previousDocumentPointerEvents (surfaces d i)
      \<and> bodyPointerEvents (enterModalState d i) = bodyPointerEvents d)
   \<and> (bodyPointerEvents d \<noteq> ''none'' \<longrightarrow>
      previousDocumentPointerEvents (surfaces (enterModalState d i) i)
        = Some (bodyPointerEvents d))
   \<and> (previousDocumentPointerEvents (surfaces d i) = None \<longrightarrow>
      bodyPointerEvents (exitModalState d i) = bodyPointerEvents d)
   \<and> (\<forall>v. previousDocumentPointerEvents (surfaces d i) = Some v \<longrightarrow>
      bodyPointerEvents (exitModalState d i) = v)
   \<and> (\<forall>j. j \<noteq> i \<longrightarrow>
      previousDocumentPointerEvents (surfaces (enterModalState d j) i)
        = previousDocumentPointerEvents (surfaces d i)
      \<and> previousDocumentPointerEvents (surfaces (exitModalState d j) i)
        = previousDocumentPointerEvents (surfaces d i))
   \<and> (bodyPointerEvents d = ''none''
        \<and> previousDocumentPointerEvents (surfaces d i) = None \<longrightarrow>
      bodyPointerEvents (exitModalState (enterModalState d i) i) = bodyPointerEvents d)"
  by (simp add: enterModalState_body enterModalState_previous exitModalState_body
        exitModalState_previous)

theorem body_restored_by_recorder_only_witness:
  "bodyPointerEvents oneModal = ''none''
   \<and> previousDocumentPointerEvents (surfaces oneModal 2) = None
   \<and> previousDocumentPointerEvents (surfaces (enterModalState oneModal 2) 2) = None
   \<and> bodyPointerEvents (exitModalState (enterModalState oneModal 2) 2) = ''none''
   \<and> bodyPointerEvents emptyDoc \<noteq> ''none''
   \<and> previousDocumentPointerEvents (surfaces (enterModalState emptyDoc 1) 1) = Some []
   \<and> previousDocumentPointerEvents (surfaces oneModal 1) = Some []
   \<and> bodyPointerEvents (exitModalState oneModal 1) = []
   \<and> previousDocumentPointerEvents (surfaces (enterModalState oneModal 2) 1) = Some []"
proof -
  have h1: "bodyPointerEvents oneModal = ''none''" by code_simp
  have h2: "previousDocumentPointerEvents (surfaces oneModal 2) = None" by code_simp
  have h3: "bodyPointerEvents emptyDoc \<noteq> ''none''" by code_simp
  have h4: "previousDocumentPointerEvents (surfaces oneModal 1) = Some []" by code_simp
  have h5: "bodyPointerEvents emptyDoc = []" by code_simp
  have h6: "(2::nat) \<noteq> 1" by simp
  show ?thesis
    using body_restored_by_recorder_only [of oneModal 2]
      body_restored_by_recorder_only [of emptyDoc 1]
      body_restored_by_recorder_only [of oneModal 1]
      h1 h2 h3 h4 h5 h6
    by simp
qed

subsection \<open>Frame lemmas\<close>

lemma bindE_simps:
  "bindE (Inr x) f = f x"
  "bindE (Inl e) f = Inl e"
  by (simp_all add: bindE_def)

lemma updSurface_simps:
  "surfaces (updSurface d i f) j = (if j = i then f (surfaces d i) else surfaces d j)"
  "bodyChildren (updSurface d i f) = bodyChildren d"
  "bodyPointerEvents (updSurface d i f) = bodyPointerEvents d"
  "focusPath (updSurface d i f) = focusPath d"
  "focusTimers (updSurface d i f) = focusTimers d"
  "dispatched (updSurface d i f) = dispatched d"
  by (simp_all add: updSurface_def)

lemma getActiveElement_cong:
  "focusPath d' = focusPath d \<Longrightarrow> getActiveElement d' = getActiveElement d"
  by (simp add: getActiveElement_def)

lemma exitModalState_frame:
  "bodyChildren (exitModalState d i) = bodyChildren d"
  "focusPath (exitModalState d i) = focusPath d"
  "focusTimers (exitModalState d i) = focusTimers d"
  "dispatched (exitModalState d i) = dispatched d"
  "opened (surfaces (exitModalState d i) j) = opened (surfaces d j)"
  "modeless (surfaces (exitModalState d i) j) = modeless (surfaces d j)"
  "openingAttr (surfaces (exitModalState d i) j) = openingAttr (surfaces d j)"
  "closingAttr (surfaces (exitModalState d i) j) = closingAttr (surfaces d j)"
  "parentNode (surfaces (exitModalState d i) j) = parentNode (surfaces d j)"
  "placeholder (surfaces (exitModalState d i) j) = placeholder (surfaces d j)"
  "zIndex (surfaces (exitModalState d i) j) = zIndex (surfaces d j)"
  "styleZIndex (surfaces (exitModalState d i) j) = styleZIndex (surfaces d j)"
  "defaultZIndex (surfaces (exitModalState d i) j) = defaultZIndex (surfaces d j)"
  "restoreFocusOnClose (surfaces (exitModalState d i) j) = restoreFocusOnClose (surfaces d j)"
  "restoreFocusNode (surfaces (exitModalState d i) j) = restoreFocusNode (surfaces d j)"
  "savedFocusNode (surfaces (exitModalState d i) j) = savedFocusNode (surfaces d j)"
  "openingHandler (surfaces (exitModalState d i) j) = openingHandler (surfaces d j)"
  "closingHandler (surfaces (exitModalState d i) j) = closingHandler (surfaces d j)"
  "openingAnimated (surfaces (exitModalState d i) j) = openingAnimated (surfaces d j)"
  "closingAnimated (surfaces (exitModalState d i) j) = closingAnimated (surfaces d j)"
  by (simp_all add: exitModalState_form)

lemma enterModalState_frame:
  "bodyChildren (enterModalState d i) = bodyChildren d"
  "focusPath (enterModalState d i) = focusPath d"
  "focusTimers (enterModalState d i) = focusTimers d"
  "dispatched (enterModalState d i) = dispatched d"
  "opened (surfaces (enterModalState d i) j) = opened (surfaces d j)"
  "modeless (surfaces (enterModalState d i) j) = modeless (surfaces d j)"
  "openingAttr (surfaces (enterModalState d i) j) = openingAttr (surfaces d j)"
  "closingAttr (surfaces (enterModalState d i) j) = closingAttr (surfaces d j)"
  "parentNode (surfaces (enterModalState d i) j) = parentNode (surfaces d j)"
  "placeholder (surfaces (enterModalState d i) j) = placeholder (surfaces d j)"
  "zIndex (surfaces (enterModalState d i) j) = zIndex (surfaces d j)"
  "styleZIndex (surfaces (enterModalState d i) j) = styleZIndex (surfaces d j)"
  "defaultZIndex (surfaces (enterModalState d i) j) = defaultZIndex (surfaces d j)"
  "restoreFocusOnClose (surfaces (enterModalState d i) j) = restoreFocusOnClose (surfaces d j)"
  "restoreFocusNode (surfaces (enterModalState d i) j) = restoreFocusNode (surfaces d j)"
  "savedFocusNode (surfaces (enterModalState d i) j) = savedFocusNode (surfaces d j)"
  "openingHandler (surfaces (enterModalState d i) j) = openingHandler (surfaces d j)"
  "closingHandler (surfaces (enterModalState d i) j) = closingHandler (surfaces d j)"
  "openingAnimated (surfaces (enterModalState d i) j) = openingAnimated (surfaces d j)"
  "closingAnimated (surfaces (enterModalState d i) j) = closingAnimated (surfaces d j)"
  by (simp_all add: enterModalState_form)

lemma bringToFront_frame2:
  "focusPath (bringToFront d i) = focusPath d"
  "focusTimers (bringToFront d i) = focusTimers d"
  "dispatched (bringToFront d i) = dispatched d"
  "bodyPointerEvents (bringToFront d i) = bodyPointerEvents d"
  "opened (surfaces (bringToFront d i) j) = opened (surfaces d j)"
  "modeless (surfaces (bringToFront d i) j) = modeless (surfaces d j)"
  "openingAttr (surfaces (bringToFront d i) j) = openingAttr (surfaces d j)"
  "parentNode (surfaces (bringToFront d i) j) = parentNode (surfaces d j)"
  "placeholder (surfaces (bringToFront d i) j) = placeholder (surfaces d j)"
  "previousDocumentPointerEvents (surfaces (bringToFront d i) j)
     = previousDocumentPointerEvents (surfaces d j)"
  "overlayPointerEvents (surfaces (bringToFront d i) j) = overlayPointerEvents (surfaces d j)"
  "restoreFocusOnClose (surfaces (bringToFront d i) j) = restoreFocusOnClose (surfaces d j)"
  "restoreFocusNode (surfaces (bringToFront d i) j) = restoreFocusNode (surfaces d j)"
  "savedFocusNode (surfaces (bringToFront d i) j) = savedFocusNode (surfaces d j)"
  "openingHandler (surfaces (bringToFront d i) j) = openingHandler (surfaces d j)"
  "closingHandler (surfaces (bringToFront d i) j) = closingHandler (surfaces d j)"
  "openingAnimated (surfaces (bringToFront d i) j) = openingAnimated (surfaces d j)"
  "closingAnimated (surfaces (bringToFront d i) j) = closingAnimated (surfaces d j)"
  by (simp_all add: bringToFront_def Let_def)

lemma restoreFocus_frame:
  "bodyChildren (restoreFocus d i) = bodyChildren d"
  "bodyPointerEvents (restoreFocus d i) = bodyPointerEvents d"
  "focusPath (restoreFocus d i) = focusPath d"
  "dispatched (restoreFocus d i) = dispatched d"
  "opened (surfaces (restoreFocus d i) j) = opened (surfaces d j)"
  "modeless (surfaces (restoreFocus d i) j) = modeless (surfaces d j)"
  "openingAttr (surfaces (restoreFocus d i) j) = openingAttr (surfaces d j)"
  "closingAttr (surfaces (restoreFocus d i) j) = closingAttr (surfaces d j)"
  "parentNode (surfaces (restoreFocus d i) j) = parentNode (surfaces d j)"
  "placeholder (surfaces (restoreFocus d i) j) = placeholder (surfaces d j)"
  "zIndex (surfaces (restoreFocus d i) j) = zIndex (surfaces d j)"
  "previousDocumentPointerEvents (surfaces (restoreFocus d i) j)
     = previousDocumentPointerEvents (surfaces d j)"
  "overlayPointerEvents (surfaces (restoreFocus d i) j) = overlayPointerEvents (surfaces d j)"
  "openingHandler (surfaces (restoreFocus d i) j) = openingHandler (surfaces d j)"
  "closingHandler (surfaces (restoreFocus d i) j) = closingHandler (surfaces d j)"
  "openingAnimated (surfaces (restoreFocus d i) j) = openingAnimated (surfaces d j)"
  "closingAnimated (surfaces (restoreFocus d i) j) = closingAnimated (surfaces d j)"
  by (simp_all add: restoreFocus_def Let_def updSurface_simps split: option.splits)

lemmas frames = bindE_simps updSurface_simps exitModalState_frame enterModalState_frame
  bringToFront_frame bringToFront_frame2 restoreFocus_frame


subsection \<open>The closing pipeline\<close>

lemma detachOverlay_origin:
  assumes "placeholder (surfaces d i) = Some Origin"
  shows "detachOverlay d i =
     Inr ((updSurface d i (\<lambda>s. s\<lparr>parentNode := Origin, placeholder := Some NoParent\<rparr>))
          \<lparr>bodyChildren := removeAll (OverlayEl i) (bodyChildren d)\<rparr>)"
  using assms by (simp add: detachOverlay_def)

lemma finishClosing_origin:
  assumes "placeholder (surfaces d i) = Some Origin"
  shows "finishClosing d i =
     Inr ((updSurface d i
             (\<lambda>s. s\<lparr>parentNode := Origin, placeholder := Some NoParent,
                     overlayPointerEvents := None, closingAttr := False\<rparr>))
          \<lparr>bodyChildren := removeAll (OverlayEl i) (bodyChildren d)\<rparr>)"
  unfolding finishClosing_def detachOverlay_origin [OF assms]
  by (simp add: bindE_simps updSurface_def)

lemma flushOpening:
  "flushAnimation Opening d i =
     Inr (if openingHandler (surfaces d i)
          then updSurface d i (\<lambda>s. s\<lparr>openingAttr := False, openingHandler := False\<rparr>)
          else d)"
  by (simp add: flushAnimation_def hasHandler_def runHandler_def finishOpening_def
        updSurface_def)

lemma animatedClosing_origin:
  assumes "placeholder (surfaces d i) = Some Origin"
  shows "animatedClosing d i =
     Inr (let d1 = (if openingAttr (surfaces d i) \<and> openingHandler (surfaces d i)
                    then updSurface d i (\<lambda>s. s\<lparr>openingAttr := False, openingHandler := False\<rparr>)
                    else d);
              d3 = restoreFocus (exitModalState d1 i) i;
              d5 = (updSurface d3 i (\<lambda>s. s\<lparr>closingAttr := True\<rparr>))
                     \<lparr>dispatched := dispatched d @ [(i, OverlayClosing)]\<rparr>
          in if closingAnimated (surfaces d i)
             then updSurface d5 i (\<lambda>s. s\<lparr>closingHandler := True\<rparr>)
             else (updSurface d5 i
                     (\<lambda>s. s\<lparr>parentNode := Origin, placeholder := Some NoParent,
                             overlayPointerEvents := None, closingAttr := False\<rparr>))
                  \<lparr>bodyChildren := removeAll (OverlayEl i) (bodyChildren d)\<rparr>)"
proof -
  define d1 where "d1 = (if openingAttr (surfaces d i) \<and> openingHandler (surfaces d i)
                    then updSurface d i (\<lambda>s. s\<lparr>openingAttr := False, openingHandler := False\<rparr>)
                    else d)"
  have f: "(if openingAttr (surfaces d i) then flushAnimation Opening d i else Inr d) = Inr d1"
    by (simp add: flushOpening d1_def)
  have p1: "placeholder (surfaces d1 i) = Some Origin"
    using assms by (simp add: d1_def updSurface_simps)
  have c1: "closingAnimated (surfaces d1 i) = closingAnimated (surfaces d i)"
    by (simp add: d1_def updSurface_simps)
  have dd: "dispatched d1 = dispatched d" "bodyChildren d1 = bodyChildren d"
    by (simp_all add: d1_def updSurface_simps)
  define d5 where "d5 = (updSurface (restoreFocus (exitModalState d1 i) i) i
                           (\<lambda>s. s\<lparr>closingAttr := True\<rparr>))
                     \<lparr>dispatched := dispatched d @ [(i, OverlayClosing)]\<rparr>"
  have p5: "placeholder (surfaces d5 i) = Some Origin"
    using p1 by (simp add: d5_def frames)
  have c5: "closingAnimated (surfaces d5 i) = closingAnimated (surfaces d i)"
    using c1 by (simp add: d5_def frames)
  have b5: "bodyChildren d5 = bodyChildren d"
    using dd by (simp add: d5_def frames)
  have "animatedClosing d i =
      (if shouldAnimate (surfaces d5 i) Closing
       then Inr (enqueueAnimation Closing d5 i) else finishClosing d5 i)"
    unfolding animatedClosing_def f bindE_simps
    using p1 dd by (simp add: Let_def d5_def frames)
  also have "\<dots> = Inr (if closingAnimated (surfaces d i)
             then updSurface d5 i (\<lambda>s. s\<lparr>closingHandler := True\<rparr>)
             else (updSurface d5 i
                     (\<lambda>s. s\<lparr>parentNode := Origin, placeholder := Some NoParent,
                             overlayPointerEvents := None, closingAttr := False\<rparr>))
                  \<lparr>bodyChildren := removeAll (OverlayEl i) (bodyChildren d)\<rparr>)"
    by (simp add: shouldAnimate_def c5 enqueueAnimation_def finishClosing_origin [OF p5] b5)
  finally show ?thesis
    unfolding Let_def d1_def d5_def .
qed


lemma restoreFocus_timers:
  "focusTimers (restoreFocus d i) =
     focusTimers d @
     (case (case restoreFocusNode (surfaces d i) of
              Some n \<Rightarrow> Some n | None \<Rightarrow> savedFocusNode (surfaces d i)) of
        None \<Rightarrow> []
      | Some t \<Rightarrow>
          if restoreFocusOnClose (surfaces d i)
             \<and> (getActiveElement d = bodyNode \<or> deepContains i (getActiveElement d))
          then [t] else [])"
  by (simp add: restoreFocus_def Let_def updSurface_simps split: option.splits)

lemma restoreFocus_saved:
  "savedFocusNode (surfaces (restoreFocus d i) i) =
     (if restoreFocusOnClose (surfaces d i)
         \<and> (restoreFocusNode (surfaces d i) \<noteq> None \<or> savedFocusNode (surfaces d i) \<noteq> None)
      then None else savedFocusNode (surfaces d i))"
  by (auto simp add: restoreFocus_def Let_def updSurface_simps split: option.splits)

lemma setOpened_False_form:
  assumes "opened (surfaces d i)" and "placeholder (surfaces d i) = Some Origin"
  shows "setOpened d i False =
     bindE (animatedClosing (updSurface d i (\<lambda>s. s\<lparr>opened := False\<rparr>)) i)
       (\<lambda>d1.
          let d2 = updSurface d1 i (\<lambda>s. s\<lparr>keydownListening := False\<rparr>)
          in Inr (if \<not> modeless (surfaces d2 i) then removeGlobalListeners d2 i else d2))"
  using assms by (simp add: setOpened_def openedChanged_def)

lemma setOpened_False_ok:
  assumes "opened (surfaces d i)" and "placeholder (surfaces d i) = Some Origin"
  shows "\<exists>d'. setOpened d i False = Inr d'"
proof -
  have p: "placeholder (surfaces (updSurface d i (\<lambda>s. s\<lparr>opened := False\<rparr>)) i) = Some Origin"
    using assms by (simp add: updSurface_simps)
  show ?thesis
    unfolding setOpened_False_form [OF assms] animatedClosing_origin [OF p]
    by (simp add: bindE_simps Let_def)
qed

lemma setOpened_False_facts:
  assumes "opened (surfaces d i)" and "placeholder (surfaces d i) = Some Origin"
    and "setOpened d i False = Inr d'"
  shows "opened (surfaces d' j) = (j \<noteq> i \<and> opened (surfaces d j))"
    and "bodyPointerEvents d' =
         (case previousDocumentPointerEvents (surfaces d i) of
            Some v \<Rightarrow> v | None \<Rightarrow> bodyPointerEvents d)"
    and "dispatched d' = dispatched d @ [(i, OverlayClosing)]"
    and "focusTimers d' =
     focusTimers d @
     (case (case restoreFocusNode (surfaces d i) of
              Some n \<Rightarrow> Some n | None \<Rightarrow> savedFocusNode (surfaces d i)) of
        None \<Rightarrow> []
      | Some t \<Rightarrow>
          if restoreFocusOnClose (surfaces d i)
             \<and> (getActiveElement d = bodyNode \<or> deepContains i (getActiveElement d))
          then [t] else [])"
proof -
  let ?d0 = "updSurface d i (\<lambda>s. s\<lparr>opened := False\<rparr>)"
  have p: "placeholder (surfaces ?d0 i) = Some Origin"
    using assms by (simp add: updSurface_simps)
  note eq = assms(3) [unfolded setOpened_False_form [OF assms(1,2)] animatedClosing_origin [OF p]
      bindE_simps Let_def]
  have g: "\<And>x. getActiveElement (exitModalState x i) = getActiveElement x"
    by (simp add: getActiveElement_def frames)
  have g2: "\<And>x f. getActiveElement (updSurface x i f) = getActiveElement x"
    by (simp add: getActiveElement_def frames)
  show "opened (surfaces d' j) = (j \<noteq> i \<and> opened (surfaces d j))"
    using eq by (auto simp: frames removeGlobalListeners_def split: if_splits)
  show "bodyPointerEvents d' =
         (case previousDocumentPointerEvents (surfaces d i) of
            Some v \<Rightarrow> v | None \<Rightarrow> bodyPointerEvents d)"
    using eq by (auto simp: frames removeGlobalListeners_def exitModalState_body split: if_splits option.splits)
  show "dispatched d' = dispatched d @ [(i, OverlayClosing)]"
    using eq by (auto simp: frames removeGlobalListeners_def split: if_splits)
  show "focusTimers d' =
     focusTimers d @
     (case (case restoreFocusNode (surfaces d i) of
              Some n \<Rightarrow> Some n | None \<Rightarrow> savedFocusNode (surfaces d i)) of
        None \<Rightarrow> []
      | Some t \<Rightarrow>
          if restoreFocusOnClose (surfaces d i)
             \<and> (getActiveElement d = bodyNode \<or> deepContains i (getActiveElement d))
          then [t] else [])"
    using eq
    by (auto simp: frames removeGlobalListeners_def restoreFocus_timers g g2 split: if_splits option.splits)
qed


subsection \<open>The opening pipeline\<close>

lemma attachOverlay_origin:
  assumes "parentNode (surfaces d i) = Origin"
  shows "attachOverlay d i =
     Inr (bringToFront
            ((updSurface d i (\<lambda>s. s\<lparr>placeholder := Some Origin, parentNode := Body\<rparr>))
             \<lparr>bodyChildren :=
                appendChild (OverlayEl i) (removeAll (PlaceholderEl i) (bodyChildren d))\<rparr>) i)"
  using assms by (simp add: attachOverlay_def Let_def updSurface_def)

lemma animatedOpening_origin:
  assumes "parentNode (surfaces d i) = Origin"
  shows "animatedOpening d i =
     Inr (let d1 = (updSurface d i (\<lambda>s. s\<lparr>placeholder := Some Origin, parentNode := Body\<rparr>))
                   \<lparr>bodyChildren :=
                      appendChild (OverlayEl i)
                        (removeAll (PlaceholderEl i) (bodyChildren d))\<rparr>;
              d2 = bringToFront d1 i;
              d3 = (if \<not> modeless (surfaces d i) then enterModalState d2 i else d2)
          in if openingAnimated (surfaces d i)
             then updSurface d3 i (\<lambda>s. s\<lparr>openingAttr := True, openingHandler := True\<rparr>)
             else updSurface d3 i (\<lambda>s. s\<lparr>openingAttr := False\<rparr>))"
proof -
  define d2 where "d2 = bringToFront
            ((updSurface d i (\<lambda>s. s\<lparr>placeholder := Some Origin, parentNode := Body\<rparr>))
             \<lparr>bodyChildren :=
                appendChild (OverlayEl i) (removeAll (PlaceholderEl i) (bodyChildren d))\<rparr>) i"
  have m2: "modeless (surfaces d2 i) = modeless (surfaces d i)"
    by (simp add: d2_def frames)
  have a2: "openingAnimated (surfaces d2 i) = openingAnimated (surfaces d i)"
    by (simp add: d2_def frames)
  define d3 where "d3 = (if \<not> modeless (surfaces d i) then enterModalState d2 i else d2)"
  have a3: "openingAnimated (surfaces d3 i) = openingAnimated (surfaces d i)"
    using a2 by (simp add: d3_def frames)
  have "animatedOpening d i =
      Inr (let d4 = updSurface d3 i (\<lambda>s. s\<lparr>openingAttr := True\<rparr>)
           in if shouldAnimate (surfaces d4 i) Opening
              then enqueueAnimation Opening d4 i else finishOpening d4 i)"
  proof -
    have "animatedOpening d i =
        bindE (attachOverlay d i)
         (\<lambda>d2.
            let d3 = (if \<not> modeless (surfaces d2 i) then enterModalState d2 i else d2);
                d4 = updSurface d3 i (\<lambda>s. s\<lparr>openingAttr := True\<rparr>)
            in Inr (if shouldAnimate (surfaces d4 i) Opening
                    then enqueueAnimation Opening d4 i
                    else finishOpening d4 i))"
      using assms by (simp add: animatedOpening_def bindE_simps)
    then show ?thesis
      unfolding attachOverlay_origin [OF assms] d2_def [symmetric] bindE_simps
      by (simp add: Let_def m2 d3_def)
  qed
  also have "\<dots> = Inr (if openingAnimated (surfaces d i)
             then updSurface d3 i (\<lambda>s. s\<lparr>openingAttr := True, openingHandler := True\<rparr>)
             else updSurface d3 i (\<lambda>s. s\<lparr>openingAttr := False\<rparr>))"
    by (simp add: Let_def shouldAnimate_def enqueueAnimation_def finishOpening_def a3
          updSurface_def)
  finally show ?thesis
    unfolding Let_def d3_def d2_def .
qed

lemma setOpened_True_form:
  assumes "\<not> opened (surfaces d i)"
  shows "setOpened d i True =
     bindE (animatedOpening
              (updSurface (updSurface d i (\<lambda>s. s\<lparr>opened := True\<rparr>)) i
                 (\<lambda>s. s\<lparr>savedFocusNode := Some (getActiveElement d)\<rparr>)) i)
       (\<lambda>d1.
          let d2 = updSurface d1 i (\<lambda>s. s\<lparr>keydownListening := True\<rparr>)
          in Inr (if \<not> modeless (surfaces d2 i) then addGlobalListeners d2 i else d2))"
  using assms by (simp add: setOpened_def openedChanged_def getActiveElement_def frames)

lemma setOpened_True_ok:
  assumes "\<not> opened (surfaces d i)" and "parentNode (surfaces d i) = Origin"
  shows "\<exists>d'. setOpened d i True = Inr d'"
proof -
  have p: "parentNode (surfaces (updSurface (updSurface d i (\<lambda>s. s\<lparr>opened := True\<rparr>)) i
                 (\<lambda>s. s\<lparr>savedFocusNode := Some (getActiveElement d)\<rparr>)) i) = Origin"
    using assms by (simp add: updSurface_simps)
  show ?thesis
    unfolding setOpened_True_form [OF assms(1)] animatedOpening_origin [OF p]
    by (simp add: bindE_simps Let_def)
qed

lemma setOpened_True_facts:
  assumes "\<not> opened (surfaces d i)" and "parentNode (surfaces d i) = Origin"
    and "setOpened d i True = Inr d'"
  shows "opened (surfaces d' j) = (j = i \<or> opened (surfaces d j))"
    and "placeholder (surfaces d' j) = (if j = i then Some Origin else placeholder (surfaces d j))"
    and "parentNode (surfaces d' j) = (if j = i then Body else parentNode (surfaces d j))"
    and "closingAttr (surfaces d' j) = closingAttr (surfaces d j)"
    and "closingHandler (surfaces d' j) = closingHandler (surfaces d j)"
    and "modeless (surfaces d' j) = modeless (surfaces d j)"
    and "bodyChildren d' =
           appendChild (OverlayEl i) (removeAll (PlaceholderEl i) (bodyChildren d))"
    and "bodyPointerEvents d' =
           (if modeless (surfaces d i) then bodyPointerEvents d else ''none'')"
    and "previousDocumentPointerEvents (surfaces d' j) =
           (if j = i \<and> \<not> modeless (surfaces d i) \<and> bodyPointerEvents d \<noteq> ''none''
            then Some (bodyPointerEvents d)
            else previousDocumentPointerEvents (surfaces d j))"
    and "savedFocusNode (surfaces d' j) =
           (if j = i then Some (getActiveElement d) else savedFocusNode (surfaces d j))"
    and "focusTimers d' = focusTimers d"
    and "dispatched d' = dispatched d"
proof -
  let ?d0 = "updSurface (updSurface d i (\<lambda>s. s\<lparr>opened := True\<rparr>)) i
                 (\<lambda>s. s\<lparr>savedFocusNode := Some (getActiveElement d)\<rparr>)"
  have p: "parentNode (surfaces ?d0 i) = Origin"
    using assms by (simp add: updSurface_simps)
  note eq = assms(3) [unfolded setOpened_True_form [OF assms(1)] animatedOpening_origin [OF p]
      bindE_simps Let_def]
  show "opened (surfaces d' j) = (j = i \<or> opened (surfaces d j))"
    using eq by (auto simp: frames addGlobalListeners_def split: if_splits)
  show "placeholder (surfaces d' j) = (if j = i then Some Origin else placeholder (surfaces d j))"
    using eq by (auto simp: frames addGlobalListeners_def split: if_splits)
  show "parentNode (surfaces d' j) = (if j = i then Body else parentNode (surfaces d j))"
    using eq by (auto simp: frames addGlobalListeners_def split: if_splits)
  show "closingAttr (surfaces d' j) = closingAttr (surfaces d j)"
    using eq by (auto simp: frames addGlobalListeners_def split: if_splits)
  show "closingHandler (surfaces d' j) = closingHandler (surfaces d j)"
    using eq by (auto simp: frames addGlobalListeners_def split: if_splits)
  show "modeless (surfaces d' j) = modeless (surfaces d j)"
    using eq by (auto simp: frames addGlobalListeners_def split: if_splits)
  show "bodyChildren d' =
           appendChild (OverlayEl i) (removeAll (PlaceholderEl i) (bodyChildren d))"
    using eq by (auto simp: frames addGlobalListeners_def split: if_splits)
  show "bodyPointerEvents d' =
           (if modeless (surfaces d i) then bodyPointerEvents d else ''none'')"
    using eq by (auto simp: frames addGlobalListeners_def enterModalState_body split: if_splits)
  show "previousDocumentPointerEvents (surfaces d' j) =
           (if j = i \<and> \<not> modeless (surfaces d i) \<and> bodyPointerEvents d \<noteq> ''none''
            then Some (bodyPointerEvents d)
            else previousDocumentPointerEvents (surfaces d j))"
    using eq
    by (auto simp: frames addGlobalListeners_def enterModalState_previous split: if_splits)
  show "savedFocusNode (surfaces d' j) =
           (if j = i then Some (getActiveElement d) else savedFocusNode (surfaces d j))"
    using eq by (auto simp: frames addGlobalListeners_def split: if_splits)
  show "focusTimers d' = focusTimers d"
    using eq by (auto simp: frames addGlobalListeners_def split: if_splits)
  show "dispatched d' = dispatched d"
    using eq by (auto simp: frames addGlobalListeners_def split: if_splits)
qed

subsection \<open>Closing\<close>

lemma dispatchEvent_simps:
  "surfaces (dispatchEvent d i n) = surfaces d"
  "bodyChildren (dispatchEvent d i n) = bodyChildren d"
  "bodyPointerEvents (dispatchEvent d i n) = bodyPointerEvents d"
  "focusPath (dispatchEvent d i n) = focusPath d"
  "focusTimers (dispatchEvent d i n) = focusTimers d"
  "dispatched (dispatchEvent d i n) = dispatched d @ [(i, n)]"
  "getActiveElement (dispatchEvent d i n) = getActiveElement d"
  by (simp_all add: dispatchEvent_def getActiveElement_def)

lemma close_form:
  "close d i veto =
     (if veto OverlayClose then Inr (dispatchEvent d i OverlayClose)
      else setOpened (dispatchEvent d i OverlayClose) i False)"
  by (simp add: close_def Let_def)

lemma close_ok:
  assumes "opened (surfaces d i)" and "placeholder (surfaces d i) = Some Origin"
  shows "\<exists>d'. close d i veto = Inr d'"
  using setOpened_False_ok [of "dispatchEvent d i OverlayClose" i] assms
  by (simp add: close_form dispatchEvent_simps)

lemma close_facts:
  assumes "opened (surfaces d i)" and "placeholder (surfaces d i) = Some Origin"
    and "close d i veto = Inr d'"
  shows "opened (surfaces d' j) = (if veto OverlayClose then opened (surfaces d j)
                                   else j \<noteq> i \<and> opened (surfaces d j))"
    and "bodyPointerEvents d' =
         (if veto OverlayClose then bodyPointerEvents d
          else case previousDocumentPointerEvents (surfaces d i) of
                 Some v \<Rightarrow> v | None \<Rightarrow> bodyPointerEvents d)"
    and "dispatched d' =
         dispatched d @ (if veto OverlayClose then [(i, OverlayClose)]
                         else [(i, OverlayClose), (i, OverlayClosing)])"
    and "focusTimers d' =
     focusTimers d @
     (if veto OverlayClose then []
      else case (case restoreFocusNode (surfaces d i) of
              Some n \<Rightarrow> Some n | None \<Rightarrow> savedFocusNode (surfaces d i)) of
        None \<Rightarrow> []
      | Some t \<Rightarrow>
          if restoreFocusOnClose (surfaces d i)
             \<and> (getActiveElement d = bodyNode \<or> deepContains i (getActiveElement d))
          then [t] else [])"
proof -
  let ?d0 = "dispatchEvent d i OverlayClose"
  have o: "opened (surfaces ?d0 i)" and p: "placeholder (surfaces ?d0 i) = Some Origin"
    using assms by (simp_all add: dispatchEvent_simps)
  show "opened (surfaces d' j) = (if veto OverlayClose then opened (surfaces d j)
                                   else j \<noteq> i \<and> opened (surfaces d j))"
  proof (cases "veto OverlayClose")
    case True
    then show ?thesis using assms(3) by (auto simp: close_form dispatchEvent_simps)
  next
    case False
    then have "setOpened ?d0 i False = Inr d'" using assms(3) by (simp add: close_form)
    from setOpened_False_facts(1) [OF o p this] False show ?thesis
      by (simp add: dispatchEvent_simps split: option.splits)
  qed
  show "bodyPointerEvents d' =
         (if veto OverlayClose then bodyPointerEvents d
          else case previousDocumentPointerEvents (surfaces d i) of
                 Some v \<Rightarrow> v | None \<Rightarrow> bodyPointerEvents d)"
  proof (cases "veto OverlayClose")
    case True
    then show ?thesis using assms(3) by (auto simp: close_form dispatchEvent_simps)
  next
    case False
    then have "setOpened ?d0 i False = Inr d'" using assms(3) by (simp add: close_form)
    from setOpened_False_facts(2) [OF o p this] False show ?thesis
      by (simp add: dispatchEvent_simps split: option.splits)
  qed
  show "dispatched d' =
         dispatched d @ (if veto OverlayClose then [(i, OverlayClose)]
                         else [(i, OverlayClose), (i, OverlayClosing)])"
  proof (cases "veto OverlayClose")
    case True
    then show ?thesis using assms(3) by (auto simp: close_form dispatchEvent_simps)
  next
    case False
    then have "setOpened ?d0 i False = Inr d'" using assms(3) by (simp add: close_form)
    from setOpened_False_facts(3) [OF o p this] False show ?thesis
      by (simp add: dispatchEvent_simps split: option.splits)
  qed
  show "focusTimers d' =
     focusTimers d @
     (if veto OverlayClose then []
      else case (case restoreFocusNode (surfaces d i) of
              Some n \<Rightarrow> Some n | None \<Rightarrow> savedFocusNode (surfaces d i)) of
        None \<Rightarrow> []
      | Some t \<Rightarrow>
          if restoreFocusOnClose (surfaces d i)
             \<and> (getActiveElement d = bodyNode \<or> deepContains i (getActiveElement d))
          then [t] else [])"
  proof (cases "veto OverlayClose")
    case True
    then show ?thesis using assms(3) by (auto simp: close_form dispatchEvent_simps)
  next
    case False
    then have "setOpened ?d0 i False = Inr d'" using assms(3) by (simp add: close_form)
    from setOpened_False_facts(4) [OF o p this] False show ?thesis
      by (simp add: dispatchEvent_simps split: option.splits)
  qed
qed


subsection \<open>Restoring the body's pointer events on close\<close>

text \<open>
  C3, as stated, fails: two modal surfaces are opened and the lower one, which recorded
  the body's prior pointer events, is closed first. It has finished closing (it is
  detached), the other modal surface is still open and attached, and the body's pointer
  events are no longer disabled.
\<close>

theorem body_restored_while_modal_open_counterexample:
  "\<not> isl (run emptyDoc [Open 1, Open 2, Close 1 False])
   \<and> bodyPointerEvents twoModals = ''none''
   \<and> \<not> opened (surfaces outOfOrder 1)
   \<and> OverlayEl 1 \<notin> set (bodyChildren outOfOrder)
   \<and> opened (surfaces outOfOrder 2)
   \<and> \<not> modeless (surfaces outOfOrder 2)
   \<and> \<not> closingAttr (surfaces outOfOrder 2)
   \<and> OverlayEl 2 \<in> set (bodyChildren outOfOrder)
   \<and> bodyPointerEvents outOfOrder \<noteq> ''none''"
  by code_simp

text \<open>
  C3, amended. When a surface closes, the body's pointer events are set to the value
  that this very surface recorded when it disabled them, and are left as they are if
  this surface recorded nothing. In particular a modal surface that is opened while
  the body is already disabled (another modal surface being open) records nothing, and
  closing it leaves the body's pointer events disabled.
\<close>

theorem close_restores_own_record:
  "(opened (surfaces d i) \<and> placeholder (surfaces d i) = Some Origin \<longrightarrow>
      (\<exists>d'. setOpened d i False = Inr d'
         \<and> bodyPointerEvents d' =
             (case previousDocumentPointerEvents (surfaces d i) of
                Some v \<Rightarrow> v | None \<Rightarrow> bodyPointerEvents d)))
   \<and> (\<not> opened (surfaces d i) \<and> parentNode (surfaces d i) = Origin
        \<and> \<not> modeless (surfaces d i)
        \<and> previousDocumentPointerEvents (surfaces d i) = None
        \<and> bodyPointerEvents d = ''none'' \<longrightarrow>
      (\<exists>d1 d2. setOpened d i True = Inr d1
         \<and> bodyPointerEvents d1 = ''none''
         \<and> previousDocumentPointerEvents (surfaces d1 i) = None
         \<and> setOpened d1 i False = Inr d2
         \<and> bodyPointerEvents d2 = ''none''))"
proof (intro conjI impI)
  assume a: "opened (surfaces d i) \<and> placeholder (surfaces d i) = Some Origin"
  then obtain d' where d': "setOpened d i False = Inr d'"
    using setOpened_False_ok by blast
  with a setOpened_False_facts(2) [of d i d']
  show "\<exists>d'. setOpened d i False = Inr d'
         \<and> bodyPointerEvents d' =
             (case previousDocumentPointerEvents (surfaces d i) of
                Some v \<Rightarrow> v | None \<Rightarrow> bodyPointerEvents d)"
    by blast
next
  assume a: "\<not> opened (surfaces d i) \<and> parentNode (surfaces d i) = Origin
        \<and> \<not> modeless (surfaces d i)
        \<and> previousDocumentPointerEvents (surfaces d i) = None
        \<and> bodyPointerEvents d = ''none''"
  then have c: "\<not> opened (surfaces d i)" and o: "parentNode (surfaces d i) = Origin"
    by simp_all
  obtain d1 where d1: "setOpened d i True = Inr d1"
    using setOpened_True_ok [OF c o] by blast
  have b1: "bodyPointerEvents d1 = ''none''"
    using setOpened_True_facts(8) [OF c o d1] a by simp
  have r1: "previousDocumentPointerEvents (surfaces d1 i) = None"
    using setOpened_True_facts(9) [OF c o d1, of i] a by simp
  have o1: "opened (surfaces d1 i)"
    using setOpened_True_facts(1) [OF c o d1, of i] by simp
  have p1: "placeholder (surfaces d1 i) = Some Origin"
    using setOpened_True_facts(2) [OF c o d1, of i] by simp
  obtain d2 where d2: "setOpened d1 i False = Inr d2"
    using setOpened_False_ok [OF o1 p1] by blast
  have "bodyPointerEvents d2 = ''none''"
    using setOpened_False_facts(2) [OF o1 p1 d2] r1 b1 by simp
  with d1 b1 r1 d2 show "\<exists>d1 d2. setOpened d i True = Inr d1
         \<and> bodyPointerEvents d1 = ''none''
         \<and> previousDocumentPointerEvents (surfaces d1 i) = None
         \<and> setOpened d1 i False = Inr d2
         \<and> bodyPointerEvents d2 = ''none''"
    by blast
qed

theorem close_restores_own_record_witness:
  "opened (surfaces twoModals 1) \<and> placeholder (surfaces twoModals 1) = Some Origin
   \<and> previousDocumentPointerEvents (surfaces twoModals 1) = Some []
   \<and> (\<exists>d'. setOpened twoModals 1 False = Inr d' \<and> bodyPointerEvents d' = [])
   \<and> \<not> opened (surfaces oneModal 2) \<and> parentNode (surfaces oneModal 2) = Origin
   \<and> \<not> modeless (surfaces oneModal 2)
   \<and> previousDocumentPointerEvents (surfaces oneModal 2) = None
   \<and> bodyPointerEvents oneModal = ''none''
   \<and> (\<exists>d1 d2. setOpened oneModal 2 True = Inr d1 \<and> setOpened d1 2 False = Inr d2
         \<and> bodyPointerEvents d2 = ''none'')"
proof -
  have h1: "opened (surfaces twoModals 1) \<and> placeholder (surfaces twoModals 1) = Some Origin"
    by code_simp
  have h2: "previousDocumentPointerEvents (surfaces twoModals 1) = Some []"
    by code_simp
  have h3: "\<not> opened (surfaces oneModal 2) \<and> parentNode (surfaces oneModal 2) = Origin
        \<and> \<not> modeless (surfaces oneModal 2)
        \<and> previousDocumentPointerEvents (surfaces oneModal 2) = None
        \<and> bodyPointerEvents oneModal = ''none''"
    by code_simp
  from close_restores_own_record [of twoModals 1] h1 h2
  have "\<exists>d'. setOpened twoModals 1 False = Inr d' \<and> bodyPointerEvents d' = []"
    by simp
  moreover from close_restores_own_record [of oneModal 2] h3
  have "\<exists>d1 d2. setOpened oneModal 2 True = Inr d1 \<and> setOpened d1 2 False = Inr d2
         \<and> bodyPointerEvents d2 = ''none''"
    by blast
  ultimately show ?thesis using h1 h2 h3 by blast
qed

subsection \<open>Escape\<close>

text \<open>
  C6, as stated, fails: Escape reaches the topmost modal surface, no listener cancels
  the escape-press notification, a listener cancels \<open>vaadin-overlay-close\<close>, and the
  surface stays open.
\<close>

theorem escape_close_vetoed_counterexample:
  "isLast oneModal 1
   \<and> \<not> modeless (surfaces oneModal 1)
   \<and> opened (surfaces oneModal 1)
   \<and> key escapeKey = ''Escape''
   \<and> \<not> vetoClose EscapePress
   \<and> \<not> isl (keydownListener oneModal 1 escapeKey vetoClose)
   \<and> dispatched (resultDoc (keydownListener oneModal 1 escapeKey vetoClose))
       = [(1, EscapePress), (1, OverlayClose)]
   \<and> opened (surfaces (resultDoc (keydownListener oneModal 1 escapeKey vetoClose)) 1)"
  by code_simp

text \<open>
  C6, amended. An Escape keydown that reaches a modal surface which is open and topmost
  dispatches the escape-press notification whatever the event path and the focus are;
  the surface is closed if and only if neither that notification nor the
  \<open>vaadin-overlay-close\<close> notification that \<open>close\<close> dispatches next is cancelled.
\<close>

theorem escape_on_topmost_modal:
  assumes "isLast d i" and "\<not> modeless (surfaces d i)"
    and "opened (surfaces d i)" and "placeholder (surfaces d i) = Some Origin"
    and "key ev = ''Escape''"
  shows "\<exists>d'. keydownListener d i ev veto = Inr d'
           \<and> take (Suc (length (dispatched d))) (dispatched d')
               = dispatched d @ [(i, EscapePress)]
           \<and> (\<not> opened (surfaces d' i) \<longleftrightarrow> \<not> veto EscapePress \<and> \<not> veto OverlayClose)"
proof (cases "veto EscapePress")
  case True
  then have "keydownListener d i ev veto = Inr (dispatchEvent d i EscapePress)"
    using assms by (simp add: keydownListener_def Let_def)
  then show ?thesis using True assms(3) by (simp add: dispatchEvent_simps)
next
  case False
  let ?d1 = "dispatchEvent d i EscapePress"
  have o: "opened (surfaces ?d1 i)" and p: "placeholder (surfaces ?d1 i) = Some Origin"
    using assms by (simp_all add: dispatchEvent_simps)
  have k: "keydownListener d i ev veto = close ?d1 i veto"
    using assms False by (simp add: keydownListener_def Let_def dispatchEvent_simps)
  obtain d' where d': "close ?d1 i veto = Inr d'"
    using close_ok [OF o p] by blast
  have "dispatched d' = dispatched d @ [(i, EscapePress)]
           @ (if veto OverlayClose then [(i, OverlayClose)]
              else [(i, OverlayClose), (i, OverlayClosing)])"
    using close_facts(3) [OF o p d'] by (simp add: dispatchEvent_simps)
  then have "take (Suc (length (dispatched d))) (dispatched d')
               = dispatched d @ [(i, EscapePress)]"
    by simp
  moreover have "\<not> opened (surfaces d' i) \<longleftrightarrow> \<not> veto OverlayClose"
    using close_facts(1) [OF o p d', of i] assms(3) by (simp add: dispatchEvent_simps)
  ultimately show ?thesis using k d' False by simp
qed

theorem escape_on_topmost_modal_witness:
  "isLast oneModal 1 \<and> \<not> modeless (surfaces oneModal 1) \<and> opened (surfaces oneModal 1)
   \<and> placeholder (surfaces oneModal 1) = Some Origin \<and> key escapeKey = ''Escape''
   \<and> (\<exists>d'. keydownListener oneModal 1 escapeKey noVeto = Inr d'
          \<and> \<not> opened (surfaces d' 1))
   \<and> (\<exists>d'. keydownListener oneModal 1 escapeKey vetoClose = Inr d'
          \<and> opened (surfaces d' 1))"
proof -
  have h1: "isLast oneModal 1" by code_simp
  have h2: "\<not> modeless (surfaces oneModal 1)" by code_simp
  have h3: "opened (surfaces oneModal 1)" by code_simp
  have h4: "placeholder (surfaces oneModal 1) = Some Origin" by code_simp
  have h5: "key escapeKey = ''Escape''" by (simp add: escapeKey_def)
  from escape_on_topmost_modal [OF h1 h2 h3 h4 h5, of noVeto]
  have a: "\<exists>d'. keydownListener oneModal 1 escapeKey noVeto = Inr d'
          \<and> \<not> opened (surfaces d' 1)"
    by (auto simp: noVeto_def)
  from escape_on_topmost_modal [OF h1 h2 h3 h4 h5, of vetoClose]
  have b: "\<exists>d'. keydownListener oneModal 1 escapeKey vetoClose = Inr d'
          \<and> opened (surfaces d' 1)"
    by (auto simp: vetoClose_def)
  show ?thesis using h1 h2 h3 h4 h5 a b by blast
qed

subsection \<open>Restoring focus on close\<close>

lemma climb_host:
  "(case climb i n of Some (OverlayNode j p) \<Rightarrow> j = i | _ \<Rightarrow> False)
     \<longleftrightarrow> (\<exists>p. OverlayNode i p \<in> set (shadowIncludingAncestors n))"
  by (induction n) auto

lemma containsNode_ancestors:
  "containsNode i n \<Longrightarrow> \<exists>p. OverlayNode i p \<in> set (shadowIncludingAncestors n)"
  by (induction n) auto

lemma deepContains_ancestors:
  "deepContains i n \<longleftrightarrow> (\<exists>p. OverlayNode i p \<in> set (shadowIncludingAncestors n))"
  unfolding deepContains_def using climb_host [of i n] containsNode_ancestors [of i n]
  by (cases "containsNode i n") simp_all

text \<open>
  C7, as stated, fails: overlay 1 restores focus, \<open>buttonX\<close> was captured when it
  opened, the focus is on the body when it closes, and yet the node that gets the focus
  is not the captured one but the configured \<open>restoreFocusNode\<close>, \<open>buttonY\<close>.
\<close>

theorem focus_goes_to_configured_node_counterexample:
  "opened (surfaces focusOpen 1)
   \<and> restoreFocusOnClose (surfaces focusOpen 1)
   \<and> savedFocusNode (surfaces focusOpen 1) = Some buttonX
   \<and> getActiveElement focusOpen = bodyNode
   \<and> \<not> isl (close focusOpen 1 noVeto)
   \<and> \<not> opened (surfaces (resultDoc (close focusOpen 1 noVeto)) 1)
   \<and> focusTimers (resultDoc (close focusOpen 1 noVeto)) = [buttonY]
   \<and> buttonX \<notin> set (focusTimers (resultDoc (close focusOpen 1 noVeto)))"
  by code_simp

text \<open>
  C7, amended. On close of a surface with focus restoration enabled, the node to focus
  is the configured \<open>restoreFocusNode\<close> if there is one and otherwise the node
  captured when the surface opened. Focus is restored to it (by a timer) if and only if
  the currently focused element is the document body or is contained, through shadow
  boundaries, in the surface being closed (the host of the surface is among its
  shadow-including ancestors); otherwise no focus change is requested.
\<close>

theorem focus_restored_on_close:
  assumes "opened (surfaces d i)" and "placeholder (surfaces d i) = Some Origin"
    and "restoreFocusOnClose (surfaces d i)"
    and "(case restoreFocusNode (surfaces d i) of
            Some n \<Rightarrow> Some n | None \<Rightarrow> savedFocusNode (surfaces d i)) = Some t"
    and "\<not> veto OverlayClose"
  shows "\<exists>d'. close d i veto = Inr d'
           \<and> (focusTimers d' = focusTimers d @ [t] \<longleftrightarrow>
                getActiveElement d = bodyNode \<or> deepContains i (getActiveElement d))
           \<and> (\<not> (getActiveElement d = bodyNode \<or> deepContains i (getActiveElement d)) \<longrightarrow>
                focusTimers d' = focusTimers d)
           \<and> (deepContains i (getActiveElement d) \<longleftrightarrow>
                (\<exists>p. OverlayNode i p \<in> set (shadowIncludingAncestors (getActiveElement d))))"
proof -
  obtain d' where d': "close d i veto = Inr d'"
    using close_ok [OF assms(1,2)] by blast
  have "focusTimers d' = focusTimers d @
          (if getActiveElement d = bodyNode \<or> deepContains i (getActiveElement d)
           then [t] else [])"
    using close_facts(4) [OF assms(1,2) d'] assms(3,4,5) by simp
  then show ?thesis
    using d' deepContains_ancestors [of i "getActiveElement d"] by auto
qed

theorem focus_restored_on_close_witness:
  "opened (surfaces focusInside 1) \<and> placeholder (surfaces focusInside 1) = Some Origin
   \<and> restoreFocusOnClose (surfaces focusInside 1)
   \<and> restoreFocusNode (surfaces focusInside 1) = None
   \<and> savedFocusNode (surfaces focusInside 1) = Some buttonX
   \<and> getActiveElement focusInside = innerInput
   \<and> deepContains 1 innerInput
   \<and> (\<exists>d'. close focusInside 1 noVeto = Inr d' \<and> focusTimers d' = [buttonX])
   \<and> getActiveElement focusElsewhere = buttonY
   \<and> \<not> deepContains 1 buttonY \<and> buttonY \<noteq> bodyNode
   \<and> (\<exists>d'. close focusElsewhere 1 noVeto = Inr d' \<and> focusTimers d' = [])"
proof -
  have h1: "opened (surfaces focusInside 1)" by code_simp
  have h2: "placeholder (surfaces focusInside 1) = Some Origin" by code_simp
  have h3: "restoreFocusOnClose (surfaces focusInside 1)" by code_simp
  have h4: "restoreFocusNode (surfaces focusInside 1) = None" by code_simp
  have h5: "savedFocusNode (surfaces focusInside 1) = Some buttonX" by code_simp
  have h6: "\<not> noVeto OverlayClose" by (simp add: noVeto_def)
  have g1: "getActiveElement focusInside = innerInput" by code_simp
  have c1: "deepContains 1 innerInput" by code_simp
  have t0: "focusTimers focusInside = []" by code_simp
  have k1: "opened (surfaces focusElsewhere 1)" by code_simp
  have k2: "placeholder (surfaces focusElsewhere 1) = Some Origin" by code_simp
  have k3: "restoreFocusOnClose (surfaces focusElsewhere 1)" by code_simp
  have k4: "restoreFocusNode (surfaces focusElsewhere 1) = None" by code_simp
  have k5: "savedFocusNode (surfaces focusElsewhere 1) = Some buttonX" by code_simp
  have g2: "getActiveElement focusElsewhere = buttonY" by code_simp
  have c2: "\<not> deepContains 1 buttonY \<and> buttonY \<noteq> bodyNode" by code_simp
  have t1: "focusTimers focusElsewhere = []" by code_simp
  have e1: "(case restoreFocusNode (surfaces focusInside 1) of
            Some n \<Rightarrow> Some n | None \<Rightarrow> savedFocusNode (surfaces focusInside 1)) = Some buttonX"
    using h4 h5 by simp
  have e2: "(case restoreFocusNode (surfaces focusElsewhere 1) of
            Some n \<Rightarrow> Some n | None \<Rightarrow> savedFocusNode (surfaces focusElsewhere 1)) = Some buttonX"
    using k4 k5 by simp
  from focus_restored_on_close [where d = focusInside and i = 1 and t = buttonX
      and veto = noVeto] h1 h2 h3 e1 h6
  have a: "\<exists>d'. close focusInside 1 noVeto = Inr d' \<and> focusTimers d' = [buttonX]"
    using g1 c1 t0 by auto
  from focus_restored_on_close [where d = focusElsewhere and i = 1 and t = buttonX
      and veto = noVeto] k1 k2 k3 e2 h6
  have b: "\<exists>d'. close focusElsewhere 1 noVeto = Inr d' \<and> focusTimers d' = []"
    using g2 c2 t1 by auto
  show ?thesis using h1 h2 h3 h4 h5 g1 c1 g2 c2 a b by blast
qed

subsection \<open>Reopening while the exit animation is in flight\<close>

lemma flushClosing_inflight:
  assumes "closingHandler (surfaces d i)" and "placeholder (surfaces d i) = Some Origin"
  shows "flushAnimation Closing d i =
     Inr ((updSurface d i
             (\<lambda>s. s\<lparr>parentNode := Origin, placeholder := Some NoParent,
                     overlayPointerEvents := None, closingAttr := False,
                     closingHandler := False\<rparr>))
          \<lparr>bodyChildren := removeAll (OverlayEl i) (bodyChildren d)\<rparr>)"
  using assms
  by (simp add: flushAnimation_def hasHandler_def runHandler_def finishClosing_origin
        bindE_simps updSurface_def)

lemma animatedOpening_inflight:
  assumes "parentNode (surfaces d i) = Body" and "closingAttr (surfaces d i)"
    and "flushAnimation Closing d i = Inr df" and "parentNode (surfaces df i) = Origin"
  shows "animatedOpening d i = animatedOpening df i"
  using assms by (simp add: animatedOpening_def bindE_simps)

lemma count_list_appendChild: "count_list (appendChild x cs) x = 1"
  by (simp add: appendChild_def)

lemma appendChild_mem: "y \<in> set (appendChild x cs) \<longleftrightarrow> y = x \<or> y \<in> set cs"
  by (auto simp: appendChild_def)

lemma setOpened_True_inflight:
  assumes "\<not> opened (surfaces d i)" and "parentNode (surfaces d i) = Body"
    and "closingAttr (surfaces d i)" and "closingHandler (surfaces d i)"
    and "placeholder (surfaces d i) = Some Origin"
  shows "setOpened d i True =
     setOpened
       ((updSurface d i
             (\<lambda>s. s\<lparr>parentNode := Origin, placeholder := Some NoParent,
                     overlayPointerEvents := None, closingAttr := False,
                     closingHandler := False\<rparr>))
          \<lparr>bodyChildren := removeAll (OverlayEl i) (bodyChildren d)\<rparr>) i True"
proof -
  let ?df = "(updSurface d i
             (\<lambda>s. s\<lparr>parentNode := Origin, placeholder := Some NoParent,
                     overlayPointerEvents := None, closingAttr := False,
                     closingHandler := False\<rparr>))
          \<lparr>bodyChildren := removeAll (OverlayEl i) (bodyChildren d)\<rparr>"
  let ?up = "\<lambda>x. updSurface (updSurface x i (\<lambda>s. s\<lparr>opened := True\<rparr>)) i
                 (\<lambda>s. s\<lparr>savedFocusNode := Some (getActiveElement d)\<rparr>)"
  have c: "\<not> opened (surfaces ?df i)"
    using assms(1) by (simp add: updSurface_simps)
  have g: "getActiveElement ?df = getActiveElement d"
    by (simp add: getActiveElement_def updSurface_simps)
  have h: "closingHandler (surfaces (?up d) i)" "placeholder (surfaces (?up d) i) = Some Origin"
    "parentNode (surfaces (?up d) i) = Body" "closingAttr (surfaces (?up d) i)"
    using assms by (simp_all add: updSurface_simps)
  have f: "flushAnimation Closing (?up d) i = Inr (?up ?df)"
    unfolding flushClosing_inflight [OF h(1,2)]
    by (simp add: updSurface_def fun_eq_iff)
  have o: "parentNode (surfaces (?up ?df) i) = Origin"
    by (simp add: updSurface_simps)
  have "animatedOpening (?up d) i = animatedOpening (?up ?df) i"
    using animatedOpening_inflight [OF h(3,4) f o] .
  then show ?thesis
    unfolding setOpened_True_form [OF assms(1)] setOpened_True_form [OF c] g by simp
qed

text \<open>
  C8. A request to reopen a surface whose exit animation is in flight (the host is still
  under the body, with the attribute \<open>closing\<close> and the closing handler pending): the
  pending exit is flushed first, which runs the closing handler to completion and
  detaches the host; the opening then proceeds exactly as from that detached state. No
  error is raised, and afterwards the host is attached once, with its placeholder at
  the original position and not under the body.
\<close>

theorem reopen_flushes_pending_exit:
  assumes "\<not> opened (surfaces d i)" and "parentNode (surfaces d i) = Body"
    and "closingAttr (surfaces d i)" and "closingHandler (surfaces d i)"
    and "placeholder (surfaces d i) = Some Origin"
  shows "\<exists>df d'.
           flushAnimation Closing d i = Inr df
           \<and> parentNode (surfaces df i) = Origin
           \<and> OverlayEl i \<notin> set (bodyChildren df)
           \<and> \<not> closingAttr (surfaces df i) \<and> \<not> closingHandler (surfaces df i)
           \<and> animatedOpening d i = animatedOpening df i
           \<and> setOpened d i True = setOpened df i True
           \<and> setOpened d i True = Inr d'
           \<and> opened (surfaces d' i)
           \<and> parentNode (surfaces d' i) = Body
           \<and> placeholder (surfaces d' i) = Some Origin
           \<and> \<not> closingAttr (surfaces d' i) \<and> \<not> closingHandler (surfaces d' i)
           \<and> count_list (bodyChildren d') (OverlayEl i) = 1
           \<and> PlaceholderEl i \<notin> set (bodyChildren d')"
proof -
  define df where "df = (updSurface d i
             (\<lambda>s. s\<lparr>parentNode := Origin, placeholder := Some NoParent,
                     overlayPointerEvents := None, closingAttr := False,
                     closingHandler := False\<rparr>))
          \<lparr>bodyChildren := removeAll (OverlayEl i) (bodyChildren d)\<rparr>"
  have f: "flushAnimation Closing d i = Inr df"
    unfolding df_def by (rule flushClosing_inflight [OF assms(4,5)])
  have c: "\<not> opened (surfaces df i)" and o: "parentNode (surfaces df i) = Origin"
    and n: "OverlayEl i \<notin> set (bodyChildren df)"
    and a: "\<not> closingAttr (surfaces df i)" and h: "\<not> closingHandler (surfaces df i)"
    using assms(1) by (simp_all add: df_def updSurface_simps)
  have e1: "animatedOpening d i = animatedOpening df i"
    by (rule animatedOpening_inflight [OF assms(2,3) f o])
  have e2: "setOpened d i True = setOpened df i True"
    unfolding df_def by (rule setOpened_True_inflight [OF assms])
  obtain d' where d': "setOpened df i True = Inr d'"
    using setOpened_True_ok [OF c o] by blast
  note facts = setOpened_True_facts [OF c o d']
  have "opened (surfaces d' i)" "parentNode (surfaces d' i) = Body"
    "placeholder (surfaces d' i) = Some Origin"
    "\<not> closingAttr (surfaces d' i)" "\<not> closingHandler (surfaces d' i)"
    using facts(1-5) [of i] a h by simp_all
  moreover have "count_list (bodyChildren d') (OverlayEl i) = 1"
    unfolding facts(7) by (rule count_list_appendChild)
  moreover have "PlaceholderEl i \<notin> set (bodyChildren d')"
    unfolding facts(7) by (simp add: appendChild_mem)
  ultimately show ?thesis
    using f o n a h e1 e2 d' by auto
qed

theorem reopen_flushes_pending_exit_witness:
  "\<not> opened (surfaces exitInFlight 1) \<and> parentNode (surfaces exitInFlight 1) = Body
   \<and> closingAttr (surfaces exitInFlight 1) \<and> closingHandler (surfaces exitInFlight 1)
   \<and> placeholder (surfaces exitInFlight 1) = Some Origin
   \<and> bodyChildren exitInFlight = [OverlayEl 1, OverlayEl 2]
   \<and> (\<exists>d'. setOpened exitInFlight 1 True = Inr d'
          \<and> count_list (bodyChildren d') (OverlayEl 1) = 1
          \<and> \<not> closingAttr (surfaces d' 1))
   \<and> bodyChildren (resultDoc (setOpened exitInFlight 1 True)) = [OverlayEl 2, OverlayEl 1]"
proof -
  have h1: "\<not> opened (surfaces exitInFlight 1)" by code_simp
  have h2: "parentNode (surfaces exitInFlight 1) = Body" by code_simp
  have h3: "closingAttr (surfaces exitInFlight 1)" by code_simp
  have h4: "closingHandler (surfaces exitInFlight 1)" by code_simp
  have h5: "placeholder (surfaces exitInFlight 1) = Some Origin" by code_simp
  have h6: "bodyChildren exitInFlight = [OverlayEl 1, OverlayEl 2]" by code_simp
  have h7: "bodyChildren (resultDoc (setOpened exitInFlight 1 True)) = [OverlayEl 2, OverlayEl 1]"
    by code_simp
  from reopen_flushes_pending_exit [OF h1 h2 h3 h4 h5]
  have "\<exists>d'. setOpened exitInFlight 1 True = Inr d'
          \<and> count_list (bodyChildren d') (OverlayEl 1) = 1
          \<and> \<not> closingAttr (surfaces d' 1)"
    by blast
  then show ?thesis using h1 h2 h3 h4 h5 h6 h7 by blast
qed

subsection \<open>Invariants of the reachable documents\<close>

lemma bringToFront_above:
  assumes "j \<in> otherAttached d i"
  shows "zIndex (surfaces d j) < zIndex (surfaces (bringToFront d i) i)"
proof -
  from assms have ne: "otherAttached d i \<noteq> {}" by blast
  then obtain f where f: "pop (filter (\<lambda>el. el \<noteq> i) (attachedInstances d)) = Some f"
    and m: "zIndex (surfaces d f) = Max ((\<lambda>j. zIndex (surfaces d j)) ` otherAttached d i)"
    using frontmost_Max by blast
  have "finite (otherAttached d i)"
    using set_others [of i d] by (metis List.finite_set)
  then have "zIndex (surfaces d j) \<le> Max ((\<lambda>j. zIndex (surfaces d j)) ` otherAttached d i)"
    using assms by simp
  then show ?thesis
    using bringToFront_zIndex_some [OF f] m by simp
qed

lemma setOpened_True_zIndex:
  assumes "\<not> opened (surfaces d i)" and "parentNode (surfaces d i) = Origin"
    and "setOpened d i True = Inr d'"
  shows "j \<noteq> i \<Longrightarrow> zIndex (surfaces d' j) = zIndex (surfaces d j)"
    and "j \<noteq> i \<Longrightarrow> OverlayEl j \<in> set (bodyChildren d) \<Longrightarrow> \<not> closingAttr (surfaces d j)
         \<Longrightarrow> zIndex (surfaces d j) < zIndex (surfaces d' i)"
proof -
  let ?d0 = "updSurface (updSurface d i (\<lambda>s. s\<lparr>opened := True\<rparr>)) i
                 (\<lambda>s. s\<lparr>savedFocusNode := Some (getActiveElement d)\<rparr>)"
  define d1 where "d1 = (updSurface ?d0 i (\<lambda>s. s\<lparr>placeholder := Some Origin, parentNode := Body\<rparr>))
                   \<lparr>bodyChildren :=
                      appendChild (OverlayEl i)
                        (removeAll (PlaceholderEl i) (bodyChildren ?d0))\<rparr>"
  have p: "parentNode (surfaces ?d0 i) = Origin"
    using assms by (simp add: updSurface_simps)
  note eq = assms(3) [unfolded setOpened_True_form [OF assms(1)] animatedOpening_origin [OF p]
      bindE_simps Let_def, folded d1_def]
  have zi: "zIndex (surfaces d' i) = zIndex (surfaces (bringToFront d1 i) i)"
    using eq by (auto simp: frames addGlobalListeners_def split: if_splits)
  show "j \<noteq> i \<Longrightarrow> zIndex (surfaces d' j) = zIndex (surfaces d j)"
    using eq by (auto simp: frames addGlobalListeners_def d1_def split: if_splits)
  assume j: "j \<noteq> i" "OverlayEl j \<in> set (bodyChildren d)" "\<not> closingAttr (surfaces d j)"
  then have "j \<in> otherAttached d1 i"
    by (simp add: otherAttached_def d1_def updSurface_simps appendChild_mem)
  then have "zIndex (surfaces d1 j) < zIndex (surfaces (bringToFront d1 i) i)"
    by (rule bringToFront_above)
  moreover have "zIndex (surfaces d1 j) = zIndex (surfaces d j)"
    using j(1) by (simp add: d1_def updSurface_simps)
  ultimately show "zIndex (surfaces d j) < zIndex (surfaces d' i)"
    using zi by simp
qed

lemma setOpened_False_life:
  assumes "opened (surfaces d i)" and "placeholder (surfaces d i) = Some Origin"
    and "setOpened d i False = Inr d'"
  shows "parentNode (surfaces d' j) =
           (if j = i \<and> \<not> closingAnimated (surfaces d i) then Origin
            else parentNode (surfaces d j))"
    and "placeholder (surfaces d' j) =
           (if j = i \<and> \<not> closingAnimated (surfaces d i) then Some NoParent
            else placeholder (surfaces d j))"
    and "closingAttr (surfaces d' j) =
           (if j = i then closingAnimated (surfaces d i) else closingAttr (surfaces d j))"
    and "closingHandler (surfaces d' j) =
           (if j = i then closingAnimated (surfaces d i) \<or> closingHandler (surfaces d i)
            else closingHandler (surfaces d j))"
    and "zIndex (surfaces d' j) = zIndex (surfaces d j)"
    and "bodyChildren d' =
           (if closingAnimated (surfaces d i) then bodyChildren d
            else removeAll (OverlayEl i) (bodyChildren d))"
proof -
  let ?d0 = "updSurface d i (\<lambda>s. s\<lparr>opened := False\<rparr>)"
  have p: "placeholder (surfaces ?d0 i) = Some Origin"
    using assms by (simp add: updSurface_simps)
  note eq = assms(3) [unfolded setOpened_False_form [OF assms(1,2)] animatedClosing_origin [OF p]
      bindE_simps Let_def]
  show "parentNode (surfaces d' j) =
           (if j = i \<and> \<not> closingAnimated (surfaces d i) then Origin
            else parentNode (surfaces d j))"
    using eq by (auto simp: frames removeGlobalListeners_def split: if_splits)
  show "placeholder (surfaces d' j) =
           (if j = i \<and> \<not> closingAnimated (surfaces d i) then Some NoParent
            else placeholder (surfaces d j))"
    using eq by (auto simp: frames removeGlobalListeners_def split: if_splits)
  show "closingAttr (surfaces d' j) =
           (if j = i then closingAnimated (surfaces d i) else closingAttr (surfaces d j))"
    using eq by (auto simp: frames removeGlobalListeners_def split: if_splits)
  show "closingHandler (surfaces d' j) =
           (if j = i then closingAnimated (surfaces d i) \<or> closingHandler (surfaces d i)
            else closingHandler (surfaces d j))"
    using eq by (auto simp: frames removeGlobalListeners_def split: if_splits)
  show "zIndex (surfaces d' j) = zIndex (surfaces d j)"
    using eq by (auto simp: frames removeGlobalListeners_def split: if_splits)
  show "bodyChildren d' =
           (if closingAnimated (surfaces d i) then bodyChildren d
            else removeAll (OverlayEl i) (bodyChildren d))"
    using eq by (auto simp: frames removeGlobalListeners_def split: if_splits)
qed


lemma consistentI:
  assumes "\<And>j. lifecycle (surfaces d j)"
    and "\<And>j. OverlayEl j \<in> set (bodyChildren d) \<longleftrightarrow> parentNode (surfaces d j) = Body"
    and "\<And>j k. OverlayEl j \<in> set (bodyChildren d) \<Longrightarrow> \<not> closingAttr (surfaces d j)
           \<Longrightarrow> OverlayEl k \<in> set (bodyChildren d) \<Longrightarrow> \<not> closingAttr (surfaces d k)
           \<Longrightarrow> zIndex (surfaces d j) = zIndex (surfaces d k) \<Longrightarrow> j = k"
  shows "consistent d"
  unfolding consistent_def set_attachedInstances using assms by blast

lemma consistentD:
  assumes "consistent d"
  shows "lifecycle (surfaces d j)"
    and "OverlayEl j \<in> set (bodyChildren d) \<longleftrightarrow> parentNode (surfaces d j) = Body"
    and "OverlayEl j \<in> set (bodyChildren d) \<Longrightarrow> \<not> closingAttr (surfaces d j)
           \<Longrightarrow> OverlayEl k \<in> set (bodyChildren d) \<Longrightarrow> \<not> closingAttr (surfaces d k)
           \<Longrightarrow> zIndex (surfaces d j) = zIndex (surfaces d k) \<Longrightarrow> j = k"
  using assms unfolding consistent_def set_attachedInstances by blast+

lemma lifecycle_cong:
  assumes "opened s' = opened s" and "parentNode s' = parentNode s"
    and "placeholder s' = placeholder s" and "closingAttr s' = closingAttr s"
    and "closingHandler s' = closingHandler s"
  shows "lifecycle s' = lifecycle s"
  using assms by (simp add: lifecycle_def)

lemma initial_consistent: "initial d \<Longrightarrow> consistent d"
  by (rule consistentI) (simp_all add: initial_def closedSurface_def lifecycle_def)

lemma consistent_cong:
  assumes "bodyChildren d' = bodyChildren d"
    and "\<And>j. opened (surfaces d' j) = opened (surfaces d j)"
    and "\<And>j. parentNode (surfaces d' j) = parentNode (surfaces d j)"
    and "\<And>j. placeholder (surfaces d' j) = placeholder (surfaces d j)"
    and "\<And>j. closingAttr (surfaces d' j) = closingAttr (surfaces d j)"
    and "\<And>j. closingHandler (surfaces d' j) = closingHandler (surfaces d j)"
    and "\<And>j. zIndex (surfaces d' j) = zIndex (surfaces d j)"
  shows "consistent d' = consistent d"
  by (simp add: consistent_def lifecycle_def attachedInstances_def assms)

lemma consistent_dispatchEvent: "consistent d \<Longrightarrow> consistent (dispatchEvent d i n)"
  by (simp add: consistent_def attachedInstances_def dispatchEvent_simps)

lemma consistent_flushed:
  assumes "consistent d" and "closingHandler (surfaces d i)"
  shows "consistent ((updSurface d i
             (\<lambda>s. s\<lparr>parentNode := Origin, placeholder := Some NoParent,
                     overlayPointerEvents := None, closingAttr := False,
                     closingHandler := False\<rparr>))
          \<lparr>bodyChildren := removeAll (OverlayEl i) (bodyChildren d)\<rparr>)"
    (is "consistent ?df")
proof (rule consistentI)
  note c = consistentD [OF assms(1)]
  have li: "\<not> opened (surfaces d i)"
    using c(1) [of i] assms(2) by (auto simp: lifecycle_def split: if_splits)
  fix j
  show "lifecycle (surfaces ?df j)"
    using c(1) [of j] li by (auto simp: updSurface_simps lifecycle_def split: if_splits)
  show "OverlayEl j \<in> set (bodyChildren ?df) \<longleftrightarrow> parentNode (surfaces ?df j) = Body"
    using c(2) [of j] by (simp add: updSurface_simps)
  fix k
  assume "OverlayEl j \<in> set (bodyChildren ?df)" "\<not> closingAttr (surfaces ?df j)"
    "OverlayEl k \<in> set (bodyChildren ?df)" "\<not> closingAttr (surfaces ?df k)"
    "zIndex (surfaces ?df j) = zIndex (surfaces ?df k)"
  then show "j = k"
    using c(3) [of j k] by (simp add: updSurface_simps split: if_splits)
qed

lemma consistent_open_closed:
  assumes "consistent d" and "\<not> opened (surfaces d i)"
    and "parentNode (surfaces d i) = Origin"
  shows "\<exists>d'. setOpened d i True = Inr d' \<and> consistent d'"
proof -
  obtain d' where d': "setOpened d i True = Inr d'"
    using setOpened_True_ok [OF assms(2,3)] by blast
  note c = consistentD [OF assms(1)]
  note f = setOpened_True_facts [OF assms(2,3) d']
  note z = setOpened_True_zIndex [OF assms(2,3) d']
  have ci: "\<not> closingAttr (surfaces d i)" "\<not> closingHandler (surfaces d i)"
    using c(1) [of i] assms(2,3) by (simp_all add: lifecycle_def)
  have ni: "OverlayEl i \<notin> set (bodyChildren d)"
    using c(2) [of i] assms(3) by simp
  have mem: "\<And>j. OverlayEl j \<in> set (bodyChildren d') \<longleftrightarrow>
                 j = i \<or> OverlayEl j \<in> set (bodyChildren d)"
    unfolding f(7) by (auto simp: appendChild_mem)
  have "consistent d'"
  proof (rule consistentI)
    fix j
    show "lifecycle (surfaces d' j)"
      using c(1) [of j] ci
      by (cases "j = i") (auto simp: lifecycle_def f(1-5) split: if_splits)
    show "OverlayEl j \<in> set (bodyChildren d') \<longleftrightarrow> parentNode (surfaces d' j) = Body"
      using c(2) [of j] by (simp add: mem f(3) [of j])
    fix k
    assume a: "OverlayEl j \<in> set (bodyChildren d')" "\<not> closingAttr (surfaces d' j)"
      "OverlayEl k \<in> set (bodyChildren d')" "\<not> closingAttr (surfaces d' k)"
      "zIndex (surfaces d' j) = zIndex (surfaces d' k)"
    show "j = k"
    proof (cases "j = i")
      case ji: True
      show ?thesis
      proof (cases "k = i")
        case True
        then show ?thesis using ji by simp
      next
        case False
        then have "zIndex (surfaces d k) < zIndex (surfaces d' i)"
          using z(2) [of k] a(3,4) by (simp add: mem f(4) [of k])
        then show ?thesis using a(5) ji z(1) [OF False] by simp
      qed
    next
      case ji: False
      show ?thesis
      proof (cases "k = i")
        case True
        have "zIndex (surfaces d j) < zIndex (surfaces d' i)"
          using z(2) [of j] a(1,2) ji by (simp add: mem f(4) [of j])
        then show ?thesis using a(5) True z(1) [OF ji] by simp
      next
        case False
        then show ?thesis
          using c(3) [of j k] a ji by (simp add: mem f(4) z(1))
      qed
    qed
  qed
  with d' show ?thesis by blast
qed

lemma consistent_open:
  assumes "consistent d"
  shows "\<exists>d'. setOpened d i True = Inr d' \<and> consistent d'"
proof (cases "opened (surfaces d i)")
  case True
  then have "setOpened d i True = Inr d" by (simp add: setOpened_def)
  then show ?thesis using assms by blast
next
  case False
  note l = consistentD(1) [OF assms, of i]
  show ?thesis
  proof (cases "parentNode (surfaces d i) = Body")
    case True
    then have h: "closingAttr (surfaces d i)" "closingHandler (surfaces d i)"
      "placeholder (surfaces d i) = Some Origin"
      using l False by (simp_all add: lifecycle_def)
    let ?df = "(updSurface d i
             (\<lambda>s. s\<lparr>parentNode := Origin, placeholder := Some NoParent,
                     overlayPointerEvents := None, closingAttr := False,
                     closingHandler := False\<rparr>))
          \<lparr>bodyChildren := removeAll (OverlayEl i) (bodyChildren d)\<rparr>"
    have e: "setOpened d i True = setOpened ?df i True"
      by (rule setOpened_True_inflight [OF False True h])
    have "consistent ?df" by (rule consistent_flushed [OF assms h(2)])
    moreover have "\<not> opened (surfaces ?df i)" "parentNode (surfaces ?df i) = Origin"
      using False by (simp_all add: updSurface_simps)
    ultimately show ?thesis
      unfolding e by (rule consistent_open_closed)
  next
    case nb: False
    then have "parentNode (surfaces d i) = Origin"
      using l False by (simp add: lifecycle_def)
    with assms False show ?thesis by (rule consistent_open_closed)
  qed
qed

lemma consistent_setOpened_False:
  assumes "consistent d"
  shows "\<exists>d'. setOpened d i False = Inr d' \<and> consistent d'"
proof (cases "opened (surfaces d i)")
  case False
  then have "setOpened d i False = Inr d" by (simp add: setOpened_def)
  then show ?thesis using assms by blast
next
  case True
  note c = consistentD [OF assms]
  have h: "placeholder (surfaces d i) = Some Origin" "parentNode (surfaces d i) = Body"
    "\<not> closingAttr (surfaces d i)" "\<not> closingHandler (surfaces d i)"
    using c(1) [of i] True by (simp_all add: lifecycle_def)
  obtain d' where d': "setOpened d i False = Inr d'"
    using setOpened_False_ok [OF True h(1)] by blast
  note o = setOpened_False_facts(1) [OF True h(1) d']
  note f = setOpened_False_life [OF True h(1) d']
  have "consistent d'"
  proof (rule consistentI)
    fix j
    show "lifecycle (surfaces d' j)"
      using c(1) [of j] h
      by (cases "j = i") (auto simp: lifecycle_def o f(1-4) split: if_splits)
    show "OverlayEl j \<in> set (bodyChildren d') \<longleftrightarrow> parentNode (surfaces d' j) = Body"
      using c(2) [of j] h(2) by (simp add: f(6) f(1) [of j])
    fix k
    assume a: "OverlayEl j \<in> set (bodyChildren d')" "\<not> closingAttr (surfaces d' j)"
      "OverlayEl k \<in> set (bodyChildren d')" "\<not> closingAttr (surfaces d' k)"
      "zIndex (surfaces d' j) = zIndex (surfaces d' k)"
    then show "j = k"
      using c(3) [of j k] by (simp add: f(6) f(3) f(5) split: if_splits)
  qed
  with d' show ?thesis by blast
qed

lemma consistent_close:
  assumes "consistent d"
  shows "\<exists>d'. close d i veto = Inr d' \<and> consistent d'"
proof (cases "veto OverlayClose")
  case True
  then show ?thesis
    using consistent_dispatchEvent [OF assms] by (simp add: close_form)
next
  case False
  then show ?thesis
    using consistent_setOpened_False [OF consistent_dispatchEvent [OF assms]]
    by (simp add: close_form)
qed

lemma consistent_flushOpening:
  assumes "consistent d"
  shows "\<exists>d'. flushAnimation Opening d i = Inr d' \<and> consistent d'"
proof -
  let ?d' = "if openingHandler (surfaces d i)
          then updSurface d i (\<lambda>s. s\<lparr>openingAttr := False, openingHandler := False\<rparr>)
          else d"
  have "consistent ?d' = consistent d"
    by (rule consistent_cong) (simp_all add: updSurface_simps)
  then show ?thesis unfolding flushOpening using assms by blast
qed

lemma consistent_flushClosing:
  assumes "consistent d"
  shows "\<exists>d'. flushAnimation Closing d i = Inr d' \<and> consistent d'"
proof (cases "closingHandler (surfaces d i)")
  case True
  then have "placeholder (surfaces d i) = Some Origin"
    using consistentD(1) [OF assms, of i] by (auto simp: lifecycle_def split: if_splits)
  from flushClosing_inflight [OF True this] consistent_flushed [OF assms True]
  show ?thesis by simp
next
  case False
  then have "flushAnimation Closing d i = Inr d"
    by (simp add: flushAnimation_def hasHandler_def)
  then show ?thesis using assms by blast
qed

lemma consistent_animationEnd:
  assumes "consistent d"
  shows "\<exists>d'. animationEnd d i = Inr d' \<and> consistent d'"
proof -
  obtain d1 where d1: "flushAnimation Opening d i = Inr d1" and c1: "consistent d1"
    using consistent_flushOpening [OF assms] by blast
  obtain d2 where "flushAnimation Closing d1 i = Inr d2" and "consistent d2"
    using consistent_flushClosing [OF c1] by blast
  then show ?thesis using d1 by (simp add: animationEnd_def bindE_simps)
qed

lemma consistent_bringToFront:
  assumes "consistent d"
  shows "consistent (bringToFront d i)"
proof (rule consistentI)
  note c = consistentD [OF assms]
  fix j
  show "lifecycle (surfaces (bringToFront d i) j)"
    using c(1) [of j] by (simp add: lifecycle_def frames)
  show "OverlayEl j \<in> set (bodyChildren (bringToFront d i))
          \<longleftrightarrow> parentNode (surfaces (bringToFront d i) j) = Body"
    using c(2) [of j] by (simp add: frames)
  fix k
  assume a: "OverlayEl j \<in> set (bodyChildren (bringToFront d i))"
    "\<not> closingAttr (surfaces (bringToFront d i) j)"
    "OverlayEl k \<in> set (bodyChildren (bringToFront d i))"
    "\<not> closingAttr (surfaces (bringToFront d i) k)"
    "zIndex (surfaces (bringToFront d i) j) = zIndex (surfaces (bringToFront d i) k)"
  then have m: "OverlayEl j \<in> set (bodyChildren d)" "\<not> closingAttr (surfaces d j)"
    "OverlayEl k \<in> set (bodyChildren d)" "\<not> closingAttr (surfaces d k)"
    by (simp_all add: frames)
  show "j = k"
  proof (cases "j = i")
    case ji: True
    show ?thesis
    proof (cases "k = i")
      case True
      then show ?thesis using ji by simp
    next
      case False
      then have "k \<in> otherAttached d i" using m by (simp add: otherAttached_def)
      from bringToFront_above [OF this] show ?thesis
        using a(5) ji False by (simp add: frames)
    qed
  next
    case ji: False
    show ?thesis
    proof (cases "k = i")
      case True
      have "j \<in> otherAttached d i" using m ji by (simp add: otherAttached_def)
      from bringToFront_above [OF this] show ?thesis
        using a(5) ji True by (simp add: frames)
    next
      case False
      then show ?thesis using c(3) [of j k] m a(5) ji by (simp add: frames)
    qed
  qed
qed

lemma consistent_setModeless:
  assumes "consistent d"
  shows "consistent (setModeless d i m)"
proof -
  have "consistent (setModeless d i m) = consistent d"
    by (rule consistent_cong)
       (simp_all add: setModeless_def modelessChanged_def addGlobalListeners_def
          removeGlobalListeners_def frames)
  then show ?thesis using assms by simp
qed

lemma consistent_mouseListeners:
  assumes "consistent d"
  shows "consistent (mouseDownListener d i ev)" and "consistent (mouseUpListener d i ev)"
proof -
  have "consistent (mouseDownListener d i ev) = consistent d"
    by (rule consistent_cong) (simp_all add: mouseDownListener_def frames)
  moreover have "consistent (mouseUpListener d i ev) = consistent d"
    by (rule consistent_cong) (simp_all add: mouseUpListener_def frames)
  ultimately show "consistent (mouseDownListener d i ev)"
    and "consistent (mouseUpListener d i ev)"
    using assms by simp_all
qed

lemma consistent_outsideClick:
  assumes "consistent d"
  shows "\<exists>d'. outsideClickListener d i ev veto = Inr d' \<and> consistent d'"
proof -
  let ?r = "updSurface d i (\<lambda>s. s\<lparr>mouseDownInside := False, mouseUpInside := False\<rparr>)"
  have "consistent ?r = consistent d"
    by (rule consistent_cong) (simp_all add: frames)
  then have r: "consistent ?r" using assms by simp
  have e: "consistent (dispatchEvent d i OutsideClick)"
    by (rule consistent_dispatchEvent [OF assms])
  show ?thesis
    using r e assms consistent_close [OF e, of i veto]
    by (auto simp: outsideClickListener_def Let_def)
qed

lemma consistent_keydown:
  assumes "consistent d"
  shows "\<exists>d'. keydownListener d i ev veto = Inr d' \<and> consistent d'"
proof -
  have e: "consistent (dispatchEvent d i EscapePress)"
    by (rule consistent_dispatchEvent [OF assms])
  show ?thesis
    using e assms consistent_close [OF e, of i veto]
    by (auto simp: keydownListener_def Let_def)
qed

lemma consistent_step:
  assumes "consistent d"
  shows "\<exists>d'. step d x = Inr d' \<and> consistent d'"
proof (cases x)
  case (Open i)
  then show ?thesis using consistent_open [OF assms] by simp
next
  case (Close i v)
  then show ?thesis using consistent_close [OF assms] by simp
next
  case (AnimationEnd i)
  then show ?thesis using consistent_animationEnd [OF assms] by simp
next
  case (BringToFront i)
  then show ?thesis using consistent_bringToFront [OF assms] by simp
next
  case (SetModeless i m)
  then show ?thesis using consistent_setModeless [OF assms] by simp
next
  case (MouseDown i ev)
  then show ?thesis using consistent_mouseListeners(1) [OF assms] assms by simp
next
  case (MouseUp i ev)
  then show ?thesis using consistent_mouseListeners(2) [OF assms] assms by simp
next
  case (Click i ev veto)
  then show ?thesis using consistent_outsideClick [OF assms] assms by simp
next
  case (Keydown i ev veto)
  then show ?thesis using consistent_keydown [OF assms] assms by simp
qed

lemma consistent_run:
  "consistent d \<Longrightarrow> \<exists>d'. run d xs = Inr d' \<and> consistent d'"
proof (induction xs arbitrary: d)
  case Nil
  then show ?case by simp
next
  case (Cons x xs)
  obtain d1 where "step d x = Inr d1" and "consistent d1"
    using consistent_step [OF Cons.prems] by blast
  then show ?case using Cons.IH [of d1] by (simp add: bindE_simps)
qed


lemma stack_top_greatest:
  assumes "pop (attachedInstances d) = Some tp" and "j \<in> set (attachedInstances d)"
  shows "zIndex (surfaces d j) \<le> zIndex (surfaces d tp)"
proof -
  let ?f = "\<lambda>j. zIndex (surfaces d j)"
  have ne: "attachedInstances d \<noteq> []" and t: "tp = last (attachedInstances d)"
    using assms(1) by (simp_all add: pop_Some)
  have "sorted (map ?f (attachedInstances d))"
    by (simp add: attachedInstances_def)
  from sorted_last_Max [OF this ne]
  have "?f tp = Max (?f ` set (attachedInstances d))" using t by simp
  then show ?thesis using assms(2) by simp
qed

lemma initial_emptyDoc: "initial emptyDoc"
  by (simp add: initial_def emptyDoc_def closedSurface_def modalSurface_def)

subsection \<open>The topmost surface\<close>

text \<open>
  C1. From a document in which no overlay has been opened yet, every sequence of
  operations (opening, closing with or without a veto, the end of an animation,
  \<open>bringToFront\<close>, a change of \<open>modeless\<close>, mouse, click and key events
  reaching the listeners) runs without error, and in the document it ends in the derived
  stack holds the attached, non-closing surfaces in ascending stacking order; if the
  stack is not empty, its last element has a stacking order strictly greater than every
  other element, and it is the only surface for which \<open>_last\<close> is true.
\<close>

theorem topmost_is_greatest:
  assumes "initial d0"
  shows "\<exists>d. run d0 ops = Inr d
           \<and> set (attachedInstances d)
               = {j. OverlayEl j \<in> set (bodyChildren d) \<and> \<not> closingAttr (surfaces d j)}
           \<and> sorted (map (\<lambda>j. zIndex (surfaces d j)) (attachedInstances d))
           \<and> (case pop (attachedInstances d) of
                 None \<Rightarrow> attachedInstances d = [] \<and> (\<forall>i. \<not> isLast d i)
               | Some tp \<Rightarrow>
                   tp = last (attachedInstances d)
                   \<and> (\<forall>j\<in>set (attachedInstances d).
                         j \<noteq> tp \<longrightarrow> zIndex (surfaces d j) < zIndex (surfaces d tp))
                   \<and> (\<forall>i. isLast d i \<longleftrightarrow> i = tp))"
proof -
  obtain d where r: "run d0 ops = Inr d" and c: "consistent d"
    using consistent_run [OF initial_consistent [OF assms]] by blast
  have s: "sorted (map (\<lambda>j. zIndex (surfaces d j)) (attachedInstances d))"
    by (simp add: attachedInstances_def)
  have t: "case pop (attachedInstances d) of
                 None \<Rightarrow> attachedInstances d = [] \<and> (\<forall>i. \<not> isLast d i)
               | Some tp \<Rightarrow>
                   tp = last (attachedInstances d)
                   \<and> (\<forall>j\<in>set (attachedInstances d).
                         j \<noteq> tp \<longrightarrow> zIndex (surfaces d j) < zIndex (surfaces d tp))
                   \<and> (\<forall>i. isLast d i \<longleftrightarrow> i = tp)"
  proof (cases "pop (attachedInstances d)")
    case None
    then show ?thesis by (simp add: pop_None isLast_def)
  next
    case (Some tp)
    then have l: "tp = last (attachedInstances d)" and m: "tp \<in> set (attachedInstances d)"
      using last_in_set [of "attachedInstances d"] by (auto simp: pop_Some)
    have "\<forall>j\<in>set (attachedInstances d).
             j \<noteq> tp \<longrightarrow> zIndex (surfaces d j) < zIndex (surfaces d tp)"
    proof (intro ballI impI)
      fix j
      assume j: "j \<in> set (attachedInstances d)" "j \<noteq> tp"
      have "zIndex (surfaces d j) \<le> zIndex (surfaces d tp)"
        using stack_top_greatest [OF Some j(1)] .
      moreover have "zIndex (surfaces d j) \<noteq> zIndex (surfaces d tp)"
        using c j m unfolding consistent_def by blast
      ultimately show "zIndex (surfaces d j) < zIndex (surfaces d tp)" by simp
    qed
    moreover have "\<forall>i. isLast d i \<longleftrightarrow> i = tp"
      using Some by (auto simp: isLast_def)
    ultimately show ?thesis using Some l by simp
  qed
  show ?thesis using r s t set_attachedInstances [of d] by blast
qed

theorem topmost_is_greatest_witness:
  "initial emptyDoc
   \<and> run emptyDoc [Open 1, Open 2] = Inr twoModals
   \<and> attachedInstances twoModals = [1, 2]
   \<and> zIndex (surfaces twoModals 1) < zIndex (surfaces twoModals 2)
   \<and> isLast twoModals 2 \<and> \<not> isLast twoModals 1"
proof -
  obtain d where r: "run emptyDoc [Open 1, Open 2] = Inr d"
    and t: "case pop (attachedInstances d) of
                 None \<Rightarrow> attachedInstances d = [] \<and> (\<forall>i. \<not> isLast d i)
               | Some tp \<Rightarrow>
                   tp = last (attachedInstances d)
                   \<and> (\<forall>j\<in>set (attachedInstances d).
                         j \<noteq> tp \<longrightarrow> zIndex (surfaces d j) < zIndex (surfaces d tp))
                   \<and> (\<forall>i. isLast d i \<longleftrightarrow> i = tp)"
    using topmost_is_greatest [OF initial_emptyDoc, of "[Open 1, Open 2]"] by blast
  have d: "d = twoModals"
    unfolding twoModals_def r by (simp add: resultDoc_def)
  have a: "attachedInstances twoModals = [1, 2]" by code_simp
  then have "pop (attachedInstances d) = Some 2" using d by simp
  with t a d have "zIndex (surfaces twoModals 1) < zIndex (surfaces twoModals 2)"
    and "isLast twoModals 2" and "\<not> isLast twoModals 1"
    by simp_all
  then show ?thesis using initial_emptyDoc r d a by simp
qed

end
